theory Spec2Isabelle
  imports Main
begin

section \<open>Data model (src/types.ts)\<close>

text \<open>
  JavaScript strings are modelled as \<^typ>\<open>string\<close>, one \<^typ>\<open>char\<close> per code unit, so
  the strings of the model are those whose code units are below 256; \<open>length\<close> is the
  JavaScript \<open>.length\<close>. Numbers that come from \<open>Date.now()\<close> are
  \<^typ>\<open>int\<close>. An optional property is an \<open>option\<close>.
\<close>

datatype role = User_role | Model_role

text \<open>The API-facing \<open>Part\<close> of the vendor SDK: a text fragment or inline binary data
  (payload and mime type).\<close>

datatype part = TextPart string | InlineDataPart string string

text \<open>\<open>DisplayMessagePart\<close>. The field \<open>text\<close> is written \<open>dtext\<close> (\<open>text\<close> is a keyword),
  and the others follow suit. An image is (data, mimeType), a file is (name, type), a video
  is its \<open>src\<close>.\<close>

record displayMessagePart =
  dtext :: "string option"
  dimage :: "(string \<times> string) option"
  dfile :: "(string \<times> string) option"
  dvideo :: "string option"

typedecl functionCall
typedecl groundingChunk

record displayMessage =
  role :: role
  parts :: "part list"
  displayParts :: "displayMessagePart list"
  timestamp :: int
  isError :: "bool option"
  isGenerating :: "bool option"
  isCreditError :: "bool option"
  generationProgress :: "string option"
  functionCall :: "functionCall option"
  groundingSources :: "groundingChunk list option"

text \<open>\<open>StoredChatSession\<close>. The field \<open>id\<close> is written \<open>sessId\<close> (\<open>id\<close> is the identity
  function of HOL).\<close>

record storedChatSession =
  sessId :: string
  title :: string
  messages :: "displayMessage list"
  createdAt :: int
  userId :: string

section \<open>src/hooks/useChatHistory.ts\<close>

definition MAX_TITLE_LENGTH :: nat where
  "MAX_TITLE_LENGTH = 35"

text \<open>\<open>Array.prototype.find\<close> is \<^const>\<open>find\<close> of HOL: the first element that satisfies
  the predicate, or \<open>None\<close> (\<open>undefined\<close>).\<close>

text \<open>\<open>p => p.text\<close>: a display part whose text is present and truthy, that is, not the
  empty string.\<close>

definition hasText :: "displayMessagePart \<Rightarrow> bool" where
  "hasText p = (case dtext p of None \<Rightarrow> False | Some t \<Rightarrow> t \<noteq> [])"

text \<open>\<open>firstUserMessage?.displayParts.find(p => p.text)?.text\<close> is \<open>None\<close> when a link of
  the chain is \<open>undefined\<close>; \<open>|| 'New Chat'\<close> replaces \<open>undefined\<close> and the empty string.\<close>

definition generateTitle :: "displayMessage list \<Rightarrow> string" where
  "generateTitle msgs =
     (let firstUserMessage = find (\<lambda>m. role m = User_role) msgs;
          chained =
            (case firstUserMessage of
               None \<Rightarrow> None
             | Some m \<Rightarrow> (case find hasText (displayParts m) of None \<Rightarrow> None | Some p \<Rightarrow> dtext p));
          firstText =
            (case chained of
               None \<Rightarrow> ''New Chat''
             | Some t \<Rightarrow> if t = [] then ''New Chat'' else t)
      in if length firstText > MAX_TITLE_LENGTH
         then take MAX_TITLE_LENGTH firstText @ ''...''
         else firstText)"

text \<open>\<open>SetStateAction<DisplayMessage[]>\<close>: a new list, or a function of the previous one.\<close>

datatype updater = Value "displayMessage list" | Fn "displayMessage list \<Rightarrow> displayMessage list"

definition applyUpdater :: "updater \<Rightarrow> displayMessage list \<Rightarrow> displayMessage list" where
  "applyUpdater u oldMessages = (case u of Fn f \<Rightarrow> f oldMessages | Value v \<Rightarrow> v)"

text \<open>The body of the \<open>map\<close> callback of \<open>updateSessionMessages\<close>.\<close>

definition updateOneSession :: "string \<Rightarrow> updater \<Rightarrow> storedChatSession \<Rightarrow> storedChatSession" where
  "updateOneSession sessionId u session =
     (if sessId session = sessionId then
        (let oldMessages = messages session;
             newMessages = applyUpdater u oldMessages;
             updatedSession = session\<lparr>messages := newMessages\<rparr>
         in if length (filter (\<lambda>m. role m = User_role) newMessages) = 1
               \<and> title session = ''New Chat''
            then updatedSession\<lparr>title := generateTitle newMessages\<rparr>
            else updatedSession)
      else session)"

definition updateSessionMessages ::
  "string \<Rightarrow> updater \<Rightarrow> storedChatSession list \<Rightarrow> storedChatSession list" where
  "updateSessionMessages sessionId u prevSessions = map (updateOneSession sessionId u) prevSessions"

text \<open>\<open>WELCOME_MESSAGE\<close> is a module constant whose timestamp is \<open>Date.now()\<close> at the
  time the module is loaded; that time is the parameter \<open>t0\<close>.\<close>

definition WELCOME_TEXT :: string where
  "WELCOME_TEXT = ''Hello! I'' @ [CHR 0x27] @ ''m Cortex, your AI assistant. You can ask me anything or switch to Image mode to generate pictures.''"

definition WELCOME_MESSAGE :: "int \<Rightarrow> displayMessage" where
  "WELCOME_MESSAGE t0 =
     \<lparr> role = Model_role,
       parts = [TextPart WELCOME_TEXT],
       displayParts = [\<lparr> dtext = Some WELCOME_TEXT, dimage = None, dfile = None, dvideo = None \<rparr>],
       timestamp = t0,
       isError = None, isGenerating = None, isCreditError = None,
       generationProgress = None, functionCall = None, groundingSources = None \<rparr>"

text \<open>\<open>Number.prototype.toString\<close> on an integer: its decimal digits, with a minus sign
  when negative.\<close>

definition digitChar :: "nat \<Rightarrow> char" where
  "digitChar d = ''0123456789'' ! d"

fun natToString :: "nat \<Rightarrow> string" where
  "natToString n = (if n < 10 then [digitChar n] else natToString (n div 10) @ [digitChar (n mod 10)])"

declare natToString.simps [simp del]

definition toString :: "int \<Rightarrow> string" where
  "toString i = (if i < 0 then CHR ''-'' # natToString (nat (- i)) else natToString (nat i))"

text \<open>The state of the hook: \<open>sessions\<close>, \<open>activeSessionId\<close> (\<open>None\<close> is \<open>null\<close>) and
  \<open>contextSessionIds\<close>.\<close>

record hookState =
  sessions :: "storedChatSession list"
  activeSessionId :: "string option"
  contextSessionIds :: "string set"

definition initialState :: hookState where
  "initialState = \<lparr> sessions = [], activeSessionId = None, contextSessionIds = {} \<rparr>"

text \<open>The session literal that \<open>startNewChat\<close> and \<open>deleteChatSession\<close> both build. The two
  reads of \<open>Date.now()\<close> (for \<open>id\<close> and for \<open>createdAt\<close>) are the parameters \<open>nowId\<close> and
  \<open>nowCreated\<close>.\<close>

definition newSession :: "string \<Rightarrow> int \<Rightarrow> int \<Rightarrow> int \<Rightarrow> storedChatSession" where
  "newSession uid t0 nowId nowCreated =
     \<lparr> sessId = toString nowId,
       title = ''New Chat'',
       messages = [WELCOME_MESSAGE t0],
       createdAt = nowCreated,
       userId = uid \<rparr>"

definition startNewChat ::
  "string \<Rightarrow> int \<Rightarrow> bool \<Rightarrow> int \<Rightarrow> int \<Rightarrow> hookState \<Rightarrow> string \<times> hookState" where
  "startNewChat uid t0 isInitial nowId nowCreated st =
     (let s = newSession uid t0 nowId nowCreated;
          st1 = (if isInitial then st\<lparr>sessions := [s]\<rparr>
                 else st\<lparr>sessions := s # sessions st\<rparr>)
      in (sessId s, st1\<lparr>activeSessionId := Some (sessId s)\<rparr>))"

text \<open>\<open>[...xs].sort((a, b) => b.createdAt - a.createdAt)\<close>: \<open>Array.prototype.sort\<close> is stable,
  so this is the stable sort by descending \<open>createdAt\<close>; \<^const>\<open>sort_key\<close> is the stable
  insertion sort of HOL, here on the negated key.\<close>

definition sortByCreatedDesc :: "storedChatSession list \<Rightarrow> storedChatSession list" where
  "sortByCreatedDesc xs = sort_key (\<lambda>s. - createdAt s) xs"

text \<open>What \<open>localStorage.getItem(CHAT_HISTORY_KEY)\<close> holds: nothing (\<open>null\<close>, or the empty
  string, both falsy), a string on which \<open>JSON.parse\<close> or the \<open>filter\<close> that follows throws
  (not JSON, or not an array), or the serialised array of sessions. \<open>JSON.stringify\<close> followed by \<open>JSON.parse\<close> is taken to return the sessions as
  they were.\<close>

datatype storageDoc = Missing | Malformed | Doc "storedChatSession list"

definition loadEffect ::
  "storageDoc \<Rightarrow> string \<Rightarrow> int \<Rightarrow> int \<Rightarrow> int \<Rightarrow> hookState \<Rightarrow> hookState" where
  "loadEffect stored uid t0 nowId nowCreated st =
     (case stored of
        Malformed \<Rightarrow>
          (let (newSessionId, st1) = startNewChat uid t0 True nowId nowCreated st
           in st1\<lparr>activeSessionId := Some newSessionId\<rparr>)
      | _ \<Rightarrow>
          (let allSessions = (case stored of Doc xs \<Rightarrow> xs | _ \<Rightarrow> []);
               userSessions = filter (\<lambda>s. userId s = uid) allSessions
           in if length userSessions > 0 then
                (let sortedSessions = sortByCreatedDesc userSessions
                 in st\<lparr>sessions := sortedSessions,
                       activeSessionId := Some (sessId (hd sortedSessions))\<rparr>)
              else
                (let (newSessionId, st1) = startNewChat uid t0 True nowId nowCreated st
                 in st1\<lparr>activeSessionId := Some newSessionId\<rparr>)))"

text \<open>The save effect returns the new content of the storage key. Everything sits in one
  \<open>try\<close> whose \<open>catch\<close> only logs: when reading the stored document throws, nothing is
  written; when \<open>JSON.stringify\<close> or \<open>localStorage.setItem\<close> throws (the quota is exceeded,
  say), nothing is written either. Whether the write goes through is the parameter
  \<open>writeOk\<close>.\<close>

definition saveEffect ::
  "storageDoc \<Rightarrow> string \<Rightarrow> storedChatSession list \<Rightarrow> bool \<Rightarrow> storageDoc" where
  "saveEffect stored uid sess writeOk =
     (case stored of
        Malformed \<Rightarrow> Malformed
      | _ \<Rightarrow>
          (let allSessions = (case stored of Doc xs \<Rightarrow> xs | _ \<Rightarrow> []);
               otherUserSessions = filter (\<lambda>s. userId s \<noteq> uid) allSessions;
               updatedAllSessions = otherUserSessions @ sess
           in if writeOk then Doc updatedAllSessions else stored))"

text \<open>\<open>Content\<close> of the vendor SDK: \<open>{ role, parts }\<close>.\<close>

datatype content = Content role "part list"

definition toContent :: "displayMessage \<Rightarrow> content" where
  "toContent msg = Content (role msg) (parts msg)"

datatype tool = FunctionDeclarations_CREATE_ZIP | GoogleSearch

text \<open>\<open>recreateGeminiSession\<close> returns the arguments it hands to \<open>createChatSession\<close>
  (history and tools), or \<open>None\<close> when it returns early because the target session is not
  in the collection. \<open>flatMap\<close> is \<open>concat\<close> of \<open>map\<close>, \<open>slice(1)\<close> is \<open>drop 1\<close>.\<close>

definition recreateGeminiSession ::
  "string \<Rightarrow> storedChatSession list \<Rightarrow> string set \<Rightarrow> bool \<Rightarrow> (content list \<times> tool list) option" where
  "recreateGeminiSession targetSessionId allSessions currentContextIds isWebSearchEnabled =
     (let contextSessions = filter (\<lambda>s. sessId s \<in> currentContextIds) allSessions
      in case find (\<lambda>s. sessId s = targetSessionId) allSessions of
           None \<Rightarrow> None
         | Some activeSession \<Rightarrow>
             (let contextHistory =
                    map toContent (concat (map (\<lambda>s. drop 1 (messages s)) contextSessions));
                  activeHistory = map toContent (drop 1 (messages activeSession));
                  combinedHistory = contextHistory @ activeHistory;
                  tools = [FunctionDeclarations_CREATE_ZIP]
                          @ (if isWebSearchEnabled then [GoogleSearch] else [])
              in Some (combinedHistory, tools)))"

definition loadChatSession :: "string \<Rightarrow> hookState \<Rightarrow> hookState" where
  "loadChatSession sessionId st =
     (case find (\<lambda>s. sessId s = sessionId) (sessions st) of
        Some _ \<Rightarrow> st\<lparr>activeSessionId := Some sessionId\<rparr>
      | None \<Rightarrow> st)"

definition deleteChatSession ::
  "string \<Rightarrow> int \<Rightarrow> string \<Rightarrow> int \<Rightarrow> int \<Rightarrow> hookState \<Rightarrow> hookState" where
  "deleteChatSession uid t0 sessionId nowId nowCreated st =
     (let st1 = st\<lparr>contextSessionIds := contextSessionIds st - {sessionId}\<rparr>;
          newSessions = filter (\<lambda>s. sessId s \<noteq> sessionId) (sessions st)
      in if Some sessionId = activeSessionId st then
           (if length newSessions > 0 then
              (let mostRecent = hd (sortByCreatedDesc newSessions)
               in st1\<lparr>sessions := newSessions, activeSessionId := Some (sessId mostRecent)\<rparr>)
            else
              (let s = newSession uid t0 nowId nowCreated
               in st1\<lparr>sessions := [s], activeSessionId := Some (sessId s)\<rparr>))
         else st1\<lparr>sessions := newSessions\<rparr>)"

text \<open>\<open>String.prototype.trim\<close> removes white space and line terminators from both ends;
  these are the ones among the code units below 256.\<close>

definition isWhitespace :: "char \<Rightarrow> bool" where
  "isWhitespace c = (c \<in> set [CHR 0x09, CHR 0x0A, CHR 0x0B, CHR 0x0C, CHR 0x0D, CHR 0x20, CHR 0xA0])"

definition trim :: "string \<Rightarrow> string" where
  "trim s = rev (dropWhile isWhitespace (rev (dropWhile isWhitespace s)))"

definition updateSessionTitle ::
  "string \<Rightarrow> string \<Rightarrow> storedChatSession list \<Rightarrow> storedChatSession list" where
  "updateSessionTitle sessionId newTitle prev =
     (let trimmedTitle = trim newTitle
      in if trimmedTitle = [] then prev
         else map (\<lambda>s. if sessId s = sessionId then s\<lparr>title := trimmedTitle\<rparr> else s) prev)"

definition toggleContextSession :: "string \<Rightarrow> hookState \<Rightarrow> hookState" where
  "toggleContextSession sessionId st =
     (if sessionId \<in> contextSessionIds st
      then st\<lparr>contextSessionIds := contextSessionIds st - {sessionId}\<rparr>
      else st\<lparr>contextSessionIds := insert sessionId (contextSessionIds st)\<rparr>)"

definition activeChatHistory :: "hookState \<Rightarrow> displayMessage list" where
  "activeChatHistory st =
     (case activeSessionId st of
        None \<Rightarrow> []
      | Some a \<Rightarrow> (case find (\<lambda>s. sessId s = a) (sessions st) of None \<Rightarrow> [] | Some s \<Rightarrow> messages s))"

text \<open>\<open>setActiveChatHistory\<close> closes over the \<open>activeSessionId\<close> of the render that created
  it (the parameter \<open>active\<close>); \<open>if (activeSessionId)\<close> is false for \<open>null\<close> and for the
  empty string. The update itself is applied to the current collection.\<close>

definition setActiveChatHistory ::
  "string option \<Rightarrow> updater \<Rightarrow> storedChatSession list \<Rightarrow> storedChatSession list" where
  "setActiveChatHistory active u prevSessions =
     (case active of
        None \<Rightarrow> prevSessions
      | Some a \<Rightarrow> if a = [] then prevSessions else updateSessionMessages a u prevSessions)"

section \<open>src/MainApp.tsx\<close>

text \<open>A caught value: an \<open>Error\<close> instance with its message, or any other value, with its
  \<open>message\<close> property (when it has one, a string) and its \<open>String(...)\<close> rendering.\<close>

datatype thrown = ErrorInstance string | OtherThrown "string option" string

text \<open>\<open>error?.message || ''\<close>\<close>

definition messageOrEmpty :: "thrown \<Rightarrow> string" where
  "messageOrEmpty e =
     (case e of ErrorInstance m \<Rightarrow> m
      | OtherThrown None _ \<Rightarrow> []
      | OtherThrown (Some m) _ \<Rightarrow> m)"

text \<open>\<open>error instanceof Error ? error.message : String(error)\<close>\<close>

definition errorText :: "thrown \<Rightarrow> string" where
  "errorText e = (case e of ErrorInstance m \<Rightarrow> m | OtherThrown _ s \<Rightarrow> s)"

text \<open>\<open>String.prototype.toLowerCase\<close> on the code units of the model: the letters A to Z
  and the upper-case letters of the Latin-1 block (\<open>0xC0\<close> to \<open>0xDE\<close> without \<open>0xD7\<close>) are
  moved to their lower-case forms, \<open>0x20\<close> higher; every other code unit is left as it is.\<close>

definition upperLatin1 :: string where
  "upperLatin1 =
     [CHR 0xC0, CHR 0xC1, CHR 0xC2, CHR 0xC3, CHR 0xC4, CHR 0xC5, CHR 0xC6, CHR 0xC7,
      CHR 0xC8, CHR 0xC9, CHR 0xCA, CHR 0xCB, CHR 0xCC, CHR 0xCD, CHR 0xCE, CHR 0xCF,
      CHR 0xD0, CHR 0xD1, CHR 0xD2, CHR 0xD3, CHR 0xD4, CHR 0xD5, CHR 0xD6, CHR 0xD8,
      CHR 0xD9, CHR 0xDA, CHR 0xDB, CHR 0xDC, CHR 0xDD, CHR 0xDE]"

definition lowerLatin1 :: string where
  "lowerLatin1 =
     [CHR 0xE0, CHR 0xE1, CHR 0xE2, CHR 0xE3, CHR 0xE4, CHR 0xE5, CHR 0xE6, CHR 0xE7,
      CHR 0xE8, CHR 0xE9, CHR 0xEA, CHR 0xEB, CHR 0xEC, CHR 0xED, CHR 0xEE, CHR 0xEF,
      CHR 0xF0, CHR 0xF1, CHR 0xF2, CHR 0xF3, CHR 0xF4, CHR 0xF5, CHR 0xF6, CHR 0xF8,
      CHR 0xF9, CHR 0xFA, CHR 0xFB, CHR 0xFC, CHR 0xFD, CHR 0xFE]"

definition lowerChar :: "char \<Rightarrow> char" where
  "lowerChar c =
     (case map_of (zip (''ABCDEFGHIJKLMNOPQRSTUVWXYZ'' @ upperLatin1)
                       (''abcdefghijklmnopqrstuvwxyz'' @ lowerLatin1)) c of
        Some l \<Rightarrow> l
      | None \<Rightarrow> c)"

definition toLowerCase :: "string \<Rightarrow> string" where
  "toLowerCase s = map lowerChar s"

text \<open>\<open>String.prototype.includes\<close> (written \<open>includesStr\<close>, \<open>includes\<close> being a keyword):
  the search string occurs at some position.\<close>

fun includesStr :: "string \<Rightarrow> string \<Rightarrow> bool" where
  "includesStr [] t = (t = [])"
| "includesStr (x # xs) t = (take (length t) (x # xs) = t \<or> includesStr xs t)"

definition isCreditErrorFn :: "thrown \<Rightarrow> bool" where
  "isCreditErrorFn e =
     (let message = toLowerCase (messageOrEmpty e)
      in includesStr message ''quota'' \<or>
         includesStr message ''billing'' \<or>
         includesStr message ''credit'' \<or>
         includesStr message ''rate limit'')"

text \<open>One chunk of the response stream: \<open>chunk.text\<close>, \<open>chunk.functionCalls\<close> and
  \<open>chunk.candidates?.[0]?.groundingMetadata?.groundingChunks\<close>.\<close>

record chunk =
  chunkText :: "string option"
  functionCalls :: "functionCall list option"
  chunkGrounding :: "groundingChunk list option"

text \<open>The local variables of the chat branch of \<open>handleSendMessage\<close> that the loop over the
  stream assigns.\<close>

record streamVars =
  textVar :: string
  finalFunctionCall :: "functionCall option"
  finalGroundingChunks :: "groundingChunk list option"
  currentResponse :: displayMessage

definition userMessageOf :: "part list \<Rightarrow> displayMessagePart list \<Rightarrow> int \<Rightarrow> displayMessage" where
  "userMessageOf userMessageParts dps now =
     \<lparr> role = User_role, parts = userMessageParts, displayParts = dps, timestamp = now,
       isError = None, isGenerating = None, isCreditError = None,
       generationProgress = None, functionCall = None, groundingSources = None \<rparr>"

definition textDisplayPart :: "string \<Rightarrow> displayMessagePart" where
  "textDisplayPart t = \<lparr> dtext = Some t, dimage = None, dfile = None, dvideo = None \<rparr>"

definition placeholderResponse :: "int \<Rightarrow> displayMessage" where
  "placeholderResponse now =
     \<lparr> role = Model_role, parts = [TextPart []], displayParts = [textDisplayPart []],
       timestamp = now + 1,
       isError = None, isGenerating = None, isCreditError = None,
       generationProgress = None, functionCall = None, groundingSources = None \<rparr>"

text \<open>\<open>newHistory[newHistory.length - 1] = currentResponse\<close> on a copy of \<open>prev\<close>. On an empty
  array this assigns the property \<open>-1\<close>, which is no element: the array stays empty.\<close>

definition replaceLast :: "displayMessage \<Rightarrow> displayMessage list \<Rightarrow> displayMessage list" where
  "replaceLast resp prev = (if prev = [] then [] else prev[length prev - 1 := resp])"

text \<open>The two appends that open the chat branch: the user message (timestamp \<open>now1\<close>), then
  the placeholder response (timestamp \<open>now2 + 1\<close>).\<close>

definition chatBegin ::
  "string option \<Rightarrow> part list \<Rightarrow> displayMessagePart list \<Rightarrow> int \<Rightarrow> int \<Rightarrow>
   storedChatSession list \<Rightarrow> storedChatSession list" where
  "chatBegin active userMessageParts dps now1 now2 ss =
     setActiveChatHistory active (Fn (\<lambda>prev. prev @ [placeholderResponse now2]))
       (setActiveChatHistory active (Fn (\<lambda>prev. prev @ [userMessageOf userMessageParts dps now1])) ss)"

definition initialStreamVars :: "int \<Rightarrow> streamVars" where
  "initialStreamVars now2 =
     \<lparr> textVar = [], finalFunctionCall = None, finalGroundingChunks = None,
       currentResponse = placeholderResponse now2 \<rparr>"

text \<open>The body of \<open>for await (const chunk of stream)\<close>. The update of the history is
  applied to the collection as it is when the chunk arrives.\<close>

definition chunkVars :: "streamVars \<Rightarrow> chunk \<Rightarrow> streamVars" where
  "chunkVars v c =
     (let text1 = (case chunkText c of None \<Rightarrow> textVar v
                   | Some t \<Rightarrow> if t \<noteq> [] then t else textVar v);
          fc = (case functionCalls c of None \<Rightarrow> finalFunctionCall v
                | Some [] \<Rightarrow> finalFunctionCall v
                | Some (f # _) \<Rightarrow> Some f);
          gs = chunkGrounding c
      in \<lparr> textVar = text1, finalFunctionCall = fc, finalGroundingChunks = gs,
           currentResponse = (currentResponse v)\<lparr>parts := [TextPart text1],
                                displayParts := [textDisplayPart text1],
                                functionCall := fc, groundingSources := gs\<rparr> \<rparr>)"

definition chatChunk ::
  "string option \<Rightarrow> streamVars \<times> storedChatSession list \<Rightarrow> chunk \<Rightarrow>
   streamVars \<times> storedChatSession list" where
  "chatChunk active vs c =
     (let v1 = chunkVars (fst vs) c
      in (v1, setActiveChatHistory active (Fn (replaceLast (currentResponse v1))) (snd vs)))"

definition chatStream ::
  "string option \<Rightarrow> int \<Rightarrow> chunk list \<Rightarrow> storedChatSession list \<Rightarrow>
   streamVars \<times> storedChatSession list" where
  "chatStream active now2 chunks ss = foldl (chatChunk active) (initialStreamVars now2, ss) chunks"

text \<open>The \<open>catch\<close> of the chat branch; \<open>prev.slice(0, -1)\<close> is \<open>butlast\<close>.\<close>

definition chatErrorMessage :: "thrown \<Rightarrow> int \<Rightarrow> displayMessage" where
  "chatErrorMessage e now =
     (let creditError = isCreditErrorFn e;
          errorMessageContent =
            ''Sorry, something went wrong. Please try again. '' @ [CHR 0x0A, CHR 0x0A] @ errorText e
      in \<lparr> role = Model_role, parts = [TextPart errorMessageContent],
           displayParts = [textDisplayPart errorMessageContent],
           timestamp = now + 1,
           isError = Some True, isGenerating = None, isCreditError = Some creditError,
           generationProgress = None, functionCall = None, groundingSources = None \<rparr>)"

definition chatCatch ::
  "string option \<Rightarrow> thrown \<Rightarrow> int \<Rightarrow> storedChatSession list \<Rightarrow> storedChatSession list" where
  "chatCatch active e now ss =
     setActiveChatHistory active (Fn (\<lambda>prev. butlast prev @ [chatErrorMessage e now])) ss"

text \<open>The chat branch as a whole (taken when the mode is \<open>chat\<close>, a chat handle exists and
  the \<open>isLoading\<close> of the render that created the callback is false): the stream delivers
  \<open>chunks\<close> and then either ends or
  throws \<open>e\<close> (a call that throws before any chunk has \<open>chunks = []\<close>).\<close>

definition handleSendMessageChat ::
  "string option \<Rightarrow> part list \<Rightarrow> displayMessagePart list \<Rightarrow> int \<Rightarrow> int \<Rightarrow>
   chunk list \<Rightarrow> (thrown \<times> int) option \<Rightarrow> storedChatSession list \<Rightarrow> storedChatSession list" where
  "handleSendMessageChat active userMessageParts dps now1 now2 chunks failure ss =
     (let ss1 = chatBegin active userMessageParts dps now1 now2 ss;
          ss2 = snd (chatStream active now2 chunks ss1)
      in case failure of None \<Rightarrow> ss2 | Some (e, now3) \<Rightarrow> chatCatch active e now3 ss2)"

text \<open>The video branch: the loading message, and \<open>onProgress\<close>, which maps over the history
  and rewrites the message whose timestamp is \<open>loadingTimestamp\<close>.\<close>

definition loadingResponse :: "part list \<Rightarrow> displayMessagePart list \<Rightarrow> int \<Rightarrow> displayMessage" where
  "loadingResponse userMessageParts dps now =
     \<lparr> role = Model_role, parts = userMessageParts, displayParts = dps, timestamp = now + 1,
       isError = None, isGenerating = Some True, isCreditError = None,
       generationProgress = Some ''Preparing request...'', functionCall = None,
       groundingSources = None \<rparr>"

definition onProgressUpdate :: "int \<Rightarrow> string \<Rightarrow> displayMessage list \<Rightarrow> displayMessage list" where
  "onProgressUpdate loadingTimestamp status prev =
     map (\<lambda>msg. if timestamp msg = loadingTimestamp
                then msg\<lparr>generationProgress := Some status\<rparr> else msg) prev"

definition onProgress ::
  "string option \<Rightarrow> int \<Rightarrow> string \<Rightarrow> storedChatSession list \<Rightarrow> storedChatSession list" where
  "onProgress active loadingTimestamp status ss =
     setActiveChatHistory active (Fn (onProgressUpdate loadingTimestamp status)) ss"

section \<open>Specification-level definitions\<close>

text \<open>The upstream history as the specification words it: for each session of the
  collection whose id is in the context set, in collection order, its messages without the
  first one, each reduced to role and API-facing parts; these concatenated, followed by the
  active session's messages without the first one, reduced likewise.\<close>

definition strippedHistory :: "storedChatSession \<Rightarrow> content list" where
  "strippedHistory s = map (\<lambda>msg. Content (role msg) (parts msg)) (tl (messages s))"

definition contextPrefix :: "string set \<Rightarrow> storedChatSession list \<Rightarrow> content list" where
  "contextPrefix ctx ss = concat (map strippedHistory (filter (\<lambda>s. sessId s \<in> ctx) ss))"

definition upstreamHistorySpec ::
  "string set \<Rightarrow> storedChatSession list \<Rightarrow> storedChatSession \<Rightarrow> content list" where
  "upstreamHistorySpec ctx ss active = contextPrefix ctx ss @ strippedHistory active"

text \<open>The calls that create and delete sessions, each with its arguments and the clock
  readings it makes, and a run of such calls on a hook state.\<close>

datatype sessionOp = CreateSession bool int int | DeleteSession string int int

definition applyOp :: "string \<Rightarrow> int \<Rightarrow> hookState \<Rightarrow> sessionOp \<Rightarrow> hookState" where
  "applyOp uid t0 st op =
     (case op of
        CreateSession isInitial nowId nowCreated \<Rightarrow>
          snd (startNewChat uid t0 isInitial nowId nowCreated st)
      | DeleteSession sessionId nowId nowCreated \<Rightarrow>
          deleteChatSession uid t0 sessionId nowId nowCreated st)"

definition runOps :: "string \<Rightarrow> int \<Rightarrow> hookState \<Rightarrow> sessionOp list \<Rightarrow> hookState" where
  "runOps uid t0 st ops = foldl (applyOp uid t0) st ops"

text \<open>The active id is set, and some session of the collection carries it.\<close>

definition activePresent :: "hookState \<Rightarrow> bool" where
  "activePresent st =
     (case activeSessionId st of
        None \<Rightarrow> False
      | Some a \<Rightarrow> a \<in> sessId ` set (sessions st))"

text \<open>The sessions a stored document holds.\<close>

definition docSessions :: "storageDoc \<Rightarrow> storedChatSession list" where
  "docSessions stored = (case stored of Doc xs \<Rightarrow> xs | _ \<Rightarrow> [])"

section \<open>Frame of updateSessionMessages\<close>

lemma updateOneSession_other:
  "sessId s \<noteq> sessionId \<Longrightarrow> updateOneSession sessionId u s = s"
  by (simp add: updateOneSession_def)

text \<open>
  C9. An \<open>updateSessionMessages\<close> call keeps the length and the order of the collection and
  leaves every session whose id is not the target id exactly as it was, in its place (all
  fields: title, messages, timestamps, owner); when no session carries the target id, the
  whole collection is returned unchanged.
\<close>

theorem updateSessionMessages_frame:
  "length (updateSessionMessages sessionId u ss) = length ss
   \<and> (\<forall>i < length ss. sessId (ss ! i) \<noteq> sessionId \<longrightarrow>
         updateSessionMessages sessionId u ss ! i = ss ! i)
   \<and> (sessionId \<notin> sessId ` set ss \<longrightarrow> updateSessionMessages sessionId u ss = ss)"
proof (intro conjI allI impI)
  show "length (updateSessionMessages sessionId u ss) = length ss"
    by (simp add: updateSessionMessages_def)
next
  fix i assume "i < length ss" "sessId (ss ! i) \<noteq> sessionId"
  then show "updateSessionMessages sessionId u ss ! i = ss ! i"
    by (simp add: updateSessionMessages_def updateOneSession_other)
next
  assume "sessionId \<notin> sessId ` set ss"
  then have "\<forall>s \<in> set ss. updateOneSession sessionId u s = s"
    by (intro ballI updateOneSession_other) auto
  then show "updateSessionMessages sessionId u ss = ss"
    by (simp add: updateSessionMessages_def map_idI)
qed

theorem updateSessionMessages_frame_witness:
  "(let ss = [newSession ''u'' 0 2 2, newSession ''u'' 0 1 1];
        u = Fn (\<lambda>prev. prev @ [userMessageOf [TextPart ''hi''] [textDisplayPart ''hi''] 5])
    in 1 < length ss \<and> sessId (ss ! 1) \<noteq> ''2''
       \<and> updateSessionMessages ''2'' u ss ! 1 = ss ! 1
       \<and> updateSessionMessages ''2'' u ss ! 0 \<noteq> ss ! 0
       \<and> ''9'' \<notin> sessId ` set ss
       \<and> updateSessionMessages ''9'' u ss = ss)"
  using updateSessionMessages_frame
          [of "''2''" "Fn (\<lambda>prev. prev @ [userMessageOf [TextPart ''hi''] [textDisplayPart ''hi''] 5])"
              "[newSession ''u'' 0 2 2, newSession ''u'' 0 1 1]"]
        updateSessionMessages_frame
          [of "''9''" "Fn (\<lambda>prev. prev @ [userMessageOf [TextPart ''hi''] [textDisplayPart ''hi''] 5])"
              "[newSession ''u'' 0 2 2, newSession ''u'' 0 1 1]"]
  by (simp add: newSession_def toString_def natToString.simps digitChar_def
        updateSessionMessages_def updateOneSession_def applyUpdater_def
        userMessageOf_def WELCOME_MESSAGE_def Let_def)

section \<open>Renaming a session\<close>

lemma trim_Nil_iff: "trim t = [] \<longleftrightarrow> (\<forall>c \<in> set t. isWhitespace c)"
proof
  assume "trim t = []"
  then have "\<forall>c \<in> set (dropWhile isWhitespace t). isWhitespace c"
    by (simp add: trim_def)
  then have "dropWhile isWhitespace t = []"
    using hd_dropWhile [of isWhitespace t] hd_in_set [of "dropWhile isWhitespace t"] by blast
  then show "\<forall>c \<in> set t. isWhitespace c"
    by simp
next
  assume "\<forall>c \<in> set t. isWhitespace c"
  then have "dropWhile isWhitespace t = []"
    by simp
  then show "trim t = []"
    unfolding trim_def by (simp only: rev.simps dropWhile.simps)
qed

lemma trim_decompose:
  "t = takeWhile isWhitespace t @ trim t
         @ rev (takeWhile isWhitespace (rev (dropWhile isWhitespace t)))"
proof -
  let ?d = "dropWhile isWhitespace t"
  have "trim t @ rev (takeWhile isWhitespace (rev ?d)) =
          rev (takeWhile isWhitespace (rev ?d) @ dropWhile isWhitespace (rev ?d))"
    unfolding trim_def by (simp only: rev_append)
  also have "\<dots> = rev (rev ?d)"
    by (simp only: takeWhile_dropWhile_id)
  also have "\<dots> = ?d"
    by simp
  finally have "?d = trim t @ rev (takeWhile isWhitespace (rev ?d))"
    by (rule sym)
  moreover have "t = takeWhile isWhitespace t @ ?d"
    by simp
  ultimately show ?thesis by simp
qed

lemma trim_ends:
  assumes "trim t \<noteq> []"
  shows "\<not> isWhitespace (hd (trim t))" and "\<not> isWhitespace (last (trim t))"
proof -
  let ?d = "dropWhile isWhitespace t"
  let ?e = "dropWhile isWhitespace (rev ?d)"
  from assms have e: "?e \<noteq> []" by (simp add: trim_def)
  then have "\<not> isWhitespace (hd ?e)" by (rule hd_dropWhile)
  with e show "\<not> isWhitespace (last (trim t))"
    by (simp add: trim_def last_rev)
  have d: "?d \<noteq> []"
  proof
    assume "?d = []"
    then have "?e = []" by (simp only: rev.simps dropWhile.simps)
    with e show False by contradiction
  qed
  then have nd: "\<not> isWhitespace (hd ?d)" by (rule hd_dropWhile)
  have "?d = trim t @ rev (takeWhile isWhitespace (rev ?d))"
    using trim_decompose [of t] takeWhile_dropWhile_id [of isWhitespace t]
    by (metis same_append_eq)
  with assms have "hd ?d = hd (trim t)"
    by (metis hd_append2)
  with nd show "\<not> isWhitespace (hd (trim t))" by simp
qed

text \<open>
  C8. \<open>updateSessionTitle\<close> with a title that consists of white space only (the empty title
  included) returns the collection as it was, so no title changes. With any other title the
  collection keeps its length and order, each session whose id is the given one gets exactly
  the trimmed title and keeps its other fields, and every other session is unchanged. The
  trimmed title is the given one without its leading and trailing white space.
\<close>

theorem updateSessionTitle_spec:
  "((\<forall>c \<in> set newTitle. isWhitespace c) \<longrightarrow> updateSessionTitle sessionId newTitle ss = ss)
   \<and> (\<not> (\<forall>c \<in> set newTitle. isWhitespace c) \<longrightarrow>
        length (updateSessionTitle sessionId newTitle ss) = length ss
        \<and> (\<forall>i < length ss.
              updateSessionTitle sessionId newTitle ss ! i =
                (if sessId (ss ! i) = sessionId then (ss ! i)\<lparr>title := trim newTitle\<rparr>
                 else ss ! i))
        \<and> trim newTitle \<noteq> []
        \<and> \<not> isWhitespace (hd (trim newTitle)) \<and> \<not> isWhitespace (last (trim newTitle))
        \<and> (\<exists>l r. newTitle = l @ trim newTitle @ r
                \<and> (\<forall>c \<in> set l. isWhitespace c) \<and> (\<forall>c \<in> set r. isWhitespace c)))"
proof (intro conjI impI)
  assume "\<forall>c \<in> set newTitle. isWhitespace c"
  then have "trim newTitle = []" by (simp add: trim_Nil_iff)
  then show "updateSessionTitle sessionId newTitle ss = ss"
    by (simp add: updateSessionTitle_def)
next
  assume "\<not> (\<forall>c \<in> set newTitle. isWhitespace c)"
  then have ne: "trim newTitle \<noteq> []" by (simp add: trim_Nil_iff)
  then have upd: "updateSessionTitle sessionId newTitle ss =
      map (\<lambda>s. if sessId s = sessionId then s\<lparr>title := trim newTitle\<rparr> else s) ss"
    by (simp add: updateSessionTitle_def)
  show "trim newTitle \<noteq> []" by (rule ne)
  show "length (updateSessionTitle sessionId newTitle ss) = length ss"
    by (simp add: upd)
  show "\<forall>i < length ss.
          updateSessionTitle sessionId newTitle ss ! i =
            (if sessId (ss ! i) = sessionId then (ss ! i)\<lparr>title := trim newTitle\<rparr>
             else ss ! i)"
    by (simp add: upd)
  show "\<not> isWhitespace (hd (trim newTitle))" by (rule trim_ends(1) [OF ne])
  show "\<not> isWhitespace (last (trim newTitle))" by (rule trim_ends(2) [OF ne])
  have "\<forall>c \<in> set (takeWhile isWhitespace newTitle). isWhitespace c"
    by (auto dest: set_takeWhileD)
  moreover have "\<forall>c \<in> set (rev (takeWhile isWhitespace (rev (dropWhile isWhitespace newTitle)))).
                   isWhitespace c"
    by (auto dest: set_takeWhileD)
  ultimately show "\<exists>l r. newTitle = l @ trim newTitle @ r
                \<and> (\<forall>c \<in> set l. isWhitespace c) \<and> (\<forall>c \<in> set r. isWhitespace c)"
    using trim_decompose [of newTitle] by blast
qed

theorem updateSessionTitle_spec_witness:
  "(let ss = [newSession ''u'' 0 2 2, newSession ''u'' 0 1 1]
    in isWhitespace CHR '' ''
       \<and> updateSessionTitle ''2'' ''  '' ss = ss
       \<and> \<not> isWhitespace CHR ''M''
       \<and> 0 < length ss \<and> sessId (ss ! 0) = ''2''
       \<and> updateSessionTitle ''2'' '' My chat  '' ss ! 0 = (ss ! 0)\<lparr>title := ''My chat''\<rparr>
       \<and> 1 < length ss \<and> sessId (ss ! 1) \<noteq> ''2''
       \<and> updateSessionTitle ''2'' '' My chat  '' ss ! 1 = ss ! 1)"
  using updateSessionTitle_spec [of "''  ''" "''2''" "[newSession ''u'' 0 2 2, newSession ''u'' 0 1 1]"]
        updateSessionTitle_spec [of "'' My chat  ''" "''2''" "[newSession ''u'' 0 2 2, newSession ''u'' 0 1 1]"]
  by (simp add: newSession_def toString_def natToString.simps digitChar_def
        isWhitespace_def trim_def Let_def)

section \<open>Automatic titles\<close>

lemma find_by_filter:
  "find P xs = (case filter P xs of [] \<Rightarrow> None | x # _ \<Rightarrow> Some x)"
  by (induction xs) simp_all

lemma find_first_after:
  "\<forall>q \<in> set pre. \<not> P q \<Longrightarrow> P p \<Longrightarrow> find P (pre @ p # post) = Some p"
  by (induction pre) simp_all

lemma find_none_sat: "\<forall>q \<in> set xs. \<not> P q \<Longrightarrow> find P xs = None"
  by (induction xs) simp_all

lemma generateTitle_text:
  assumes one: "filter (\<lambda>m. role m = User_role) msgs = [m]"
    and dp: "displayParts m = pre @ p # post"
    and pre: "\<forall>q \<in> set pre. \<not> hasText q"
    and p: "dtext p = Some t" "t \<noteq> []"
  shows "generateTitle msgs = (if length t > 35 then take 35 t @ ''...'' else t)"
proof -
  have "find (\<lambda>m. role m = User_role) msgs = Some m"
    by (simp add: find_by_filter one)
  moreover have "find hasText (displayParts m) = Some p"
    unfolding dp using pre p by (intro find_first_after) (simp_all add: hasText_def)
  ultimately show ?thesis
    using p by (simp add: generateTitle_def MAX_TITLE_LENGTH_def)
qed

lemma generateTitle_no_text:
  assumes one: "filter (\<lambda>m. role m = User_role) msgs = [m]"
    and none: "\<forall>q \<in> set (displayParts m). \<not> hasText q"
  shows "generateTitle msgs = ''New Chat''"
proof -
  have "find (\<lambda>m. role m = User_role) msgs = Some m"
    by (simp add: find_by_filter one)
  moreover have "find hasText (displayParts m) = None"
    using none by (rule find_none_sat)
  ultimately show ?thesis
    by (simp add: generateTitle_def MAX_TITLE_LENGTH_def)
qed

text \<open>
  C5. Let the session at position \<open>i\<close> carry the target id and the title \<open>New Chat\<close>, and let
  its message list after the \<open>updateSessionMessages\<close> call hold exactly one user-authored
  message \<open>m\<close>. A text fragment is a display part with a non-empty text (what \<open>p => p.text\<close>
  selects). If the first text fragment of \<open>m\<close> has text \<open>t\<close>, the new title is the first 35
  characters of \<open>t\<close> followed by three dots when \<open>t\<close> is longer than 35, and \<open>t\<close> itself
  otherwise; if \<open>m\<close> has no text fragment, the title is \<open>New Chat\<close>.
\<close>

theorem updateSessionMessages_auto_title:
  assumes i: "i < length ss"
    and target: "sessId (ss ! i) = sessionId"
    and placeholder: "title (ss ! i) = ''New Chat''"
    and one: "filter (\<lambda>m. role m = User_role) (applyUpdater u (messages (ss ! i))) = [m]"
  shows "messages (updateSessionMessages sessionId u ss ! i) = applyUpdater u (messages (ss ! i))
    \<and> (\<forall>pre p post t.
          displayParts m = pre @ p # post \<and> (\<forall>q \<in> set pre. \<not> hasText q)
          \<and> dtext p = Some t \<and> t \<noteq> [] \<longrightarrow>
          title (updateSessionMessages sessionId u ss ! i) =
            (if length t > 35 then take 35 t @ ''...'' else t))
    \<and> ((\<forall>q \<in> set (displayParts m). \<not> hasText q) \<longrightarrow>
          title (updateSessionMessages sessionId u ss ! i) = ''New Chat'')"
proof -
  let ?new = "applyUpdater u (messages (ss ! i))"
  have len: "length (filter (\<lambda>m. role m = User_role) ?new) = 1"
    by (simp add: one)
  have upd: "updateSessionMessages sessionId u ss ! i =
               (ss ! i)\<lparr>messages := ?new, title := generateTitle ?new\<rparr>"
    using i target placeholder len
    by (simp add: updateSessionMessages_def updateOneSession_def Let_def)
  show ?thesis
  proof (intro conjI allI impI)
    show "messages (updateSessionMessages sessionId u ss ! i) = ?new"
      by (simp add: upd)
  next
    fix pre p post t
    assume a: "displayParts m = pre @ p # post \<and> (\<forall>q \<in> set pre. \<not> hasText q)
              \<and> dtext p = Some t \<and> t \<noteq> []"
    have "generateTitle ?new = (if length t > 35 then take 35 t @ ''...'' else t)"
      by (rule generateTitle_text [OF one, of pre p post t]) (simp_all add: a)
    then show "title (updateSessionMessages sessionId u ss ! i) =
                 (if length t > 35 then take 35 t @ ''...'' else t)"
      by (simp add: upd)
  next
    assume "\<forall>q \<in> set (displayParts m). \<not> hasText q"
    then have "generateTitle ?new = ''New Chat''"
      by (rule generateTitle_no_text [OF one])
    then show "title (updateSessionMessages sessionId u ss ! i) = ''New Chat''"
      by (simp add: upd)
  qed
qed

theorem updateSessionMessages_auto_title_witness:
  "(let ss = [newSession ''u'' 0 2 2, newSession ''u'' 0 1 1];
        long = ''Please summarise the attached quarterly report'';
        send = (\<lambda>dps. Fn (\<lambda>prev. prev @ [userMessageOf [] dps 5]));
        attachment = \<lparr> dtext = None, dimage = None, dfile = Some (''a.pdf'', ''application/pdf''),
                       dvideo = None \<rparr>
    in length long = 46
       \<and> title (updateSessionMessages ''2'' (send [attachment, textDisplayPart long]) ss ! 0)
           = ''Please summarise the attached quart...''
       \<and> title (updateSessionMessages ''2'' (send [textDisplayPart ''hello world'']) ss ! 0)
           = ''hello world''
       \<and> title (updateSessionMessages ''2'' (send [attachment, textDisplayPart []]) ss ! 0)
           = ''New Chat'')"
proof -
  let ?ss = "[newSession ''u'' 0 2 2, newSession ''u'' 0 1 1]"
  let ?long = "''Please summarise the attached quarterly report''"
  let ?att = "\<lparr> dtext = None, dimage = None, dfile = Some (''a.pdf'', ''application/pdf''),
               dvideo = None \<rparr>"
  let ?send = "\<lambda>dps. Fn (\<lambda>prev. prev @ [userMessageOf [] dps 5])"
  have i: "0 < length ?ss" by simp
  have target: "sessId (?ss ! 0) = ''2''"
    by (simp add: newSession_def toString_def natToString.simps digitChar_def)
  have placeholder: "title (?ss ! 0) = ''New Chat''"
    by (simp add: newSession_def)
  have one: "filter (\<lambda>m. role m = User_role) (applyUpdater (?send dps) (messages (?ss ! 0)))
               = [userMessageOf [] dps 5]" for dps
    by (simp add: newSession_def applyUpdater_def WELCOME_MESSAGE_def userMessageOf_def)
  note inst = updateSessionMessages_auto_title [OF i target placeholder one]
  have a: "title (updateSessionMessages ''2'' (?send [?att, textDisplayPart ?long]) ?ss ! 0)
             = ''Please summarise the attached quart...''"
    using inst [of "[?att, textDisplayPart ?long]", THEN conjunct2, THEN conjunct1, rule_format,
               of "[?att]" "textDisplayPart ?long" "[]" ?long]
    by (simp add: userMessageOf_def textDisplayPart_def hasText_def)
  have b: "title (updateSessionMessages ''2'' (?send [textDisplayPart ''hello world'']) ?ss ! 0)
             = ''hello world''"
    using inst [of "[textDisplayPart ''hello world'']", THEN conjunct2, THEN conjunct1, rule_format,
               of "[]" "textDisplayPart ''hello world''" "[]" "''hello world''"]
    by (simp add: userMessageOf_def textDisplayPart_def hasText_def)
  have c: "title (updateSessionMessages ''2'' (?send [?att, textDisplayPart []]) ?ss ! 0)
             = ''New Chat''"
    using inst [of "[?att, textDisplayPart []]", THEN conjunct2, THEN conjunct2]
    by (simp add: userMessageOf_def textDisplayPart_def hasText_def)
  show ?thesis
    using a b c by (simp add: Let_def)
qed

section \<open>The history handed upstream\<close>

lemma map_toContent_drop1: "map toContent (drop 1 (messages s)) = strippedHistory s"
  by (simp add: strippedHistory_def toContent_def drop_Suc fun_eq_iff)

lemma contextHistory_eq:
  "map toContent (concat (map (\<lambda>s. drop 1 (messages s)) cs)) = concat (map strippedHistory cs)"
  by (induction cs) (simp_all add: map_toContent_drop1 del: One_nat_def)

lemma recreateGeminiSession_history:
  "find (\<lambda>s. sessId s = t) ss = Some a \<Longrightarrow>
   recreateGeminiSession t ss ctx web =
     Some (upstreamHistorySpec ctx ss a,
           [FunctionDeclarations_CREATE_ZIP] @ (if web then [GoogleSearch] else []))"
  by (simp add: recreateGeminiSession_def upstreamHistorySpec_def contextPrefix_def
        contextHistory_eq map_toContent_drop1 del: One_nat_def)

text \<open>
  C2. The history that \<open>recreateGeminiSession\<close> hands to \<open>createChatSession\<close> is the one the
  specification describes, where the active session is the first session of the collection
  that carries the active id; when no session carries it, no history is built.
\<close>

theorem recreateGeminiSession_refines_spec:
  "map_option fst (recreateGeminiSession t ss ctx web) =
     map_option (upstreamHistorySpec ctx ss) (find (\<lambda>s. sessId s = t) ss)"
proof (cases "find (\<lambda>s. sessId s = t) ss")
  case None
  then show ?thesis by (simp add: recreateGeminiSession_def)
next
  case (Some a)
  then show ?thesis by (simp add: recreateGeminiSession_history)
qed

lemma find_split:
  "find P xs = Some a \<Longrightarrow> \<exists>pre post. xs = pre @ a # post \<and> P a \<and> (\<forall>s \<in> set pre. \<not> P s)"
proof (induction xs)
  case Nil
  then show ?case by simp
next
  case (Cons x xs)
  show ?case
  proof (cases "P x")
    case True
    with Cons.prems have "x = a" by simp
    with True have "x # xs = [] @ a # xs \<and> P a \<and> (\<forall>s \<in> set []. \<not> P s)" by simp
    then show ?thesis by blast
  next
    case False
    with Cons obtain pre post where "xs = pre @ a # post" "P a" "\<forall>s \<in> set pre. \<not> P s"
      by auto
    with False have "x # xs = (x # pre) @ a # post \<and> P a \<and> (\<forall>s \<in> set (x # pre). \<not> P s)"
      by simp
    then show ?thesis by blast
  qed
qed

lemma contextPrefix_append:
  "contextPrefix ctx (xs @ ys) = contextPrefix ctx xs @ contextPrefix ctx ys"
  by (simp add: contextPrefix_def)

text \<open>
  C10. When the id of the active session is itself in the context set, nothing is rejected
  or deduplicated: the active session (the first one with that id, at some position of the
  collection) contributes its messages without the welcome message twice, once inside the
  context prefix, at its place in collection order, and once more as the suffix.
\<close>

theorem recreateGeminiSession_active_in_context:
  assumes "find (\<lambda>s. sessId s = t) ss = Some a" and "t \<in> ctx"
  shows "\<exists>pre post. ss = pre @ a # post \<and> (\<forall>s \<in> set pre. sessId s \<noteq> t)
           \<and> contextPrefix ctx ss
                = contextPrefix ctx pre @ strippedHistory a @ contextPrefix ctx post
           \<and> map_option fst (recreateGeminiSession t ss ctx web)
                = Some (contextPrefix ctx pre @ strippedHistory a @ contextPrefix ctx post
                        @ strippedHistory a)"
proof -
  from find_split [OF assms(1)] obtain pre post
    where ss: "ss = pre @ a # post" and a: "sessId a = t" and pre: "\<forall>s \<in> set pre. sessId s \<noteq> t"
    by blast
  from a assms(2) have "contextPrefix ctx [a] = strippedHistory a"
    by (simp add: contextPrefix_def)
  then have cp: "contextPrefix ctx ss
              = contextPrefix ctx pre @ strippedHistory a @ contextPrefix ctx post"
    using contextPrefix_append [of ctx pre "[a] @ post"] contextPrefix_append [of ctx "[a]" post]
    by (simp add: ss)
  have "map_option fst (recreateGeminiSession t ss ctx web) = Some (upstreamHistorySpec ctx ss a)"
    by (simp add: recreateGeminiSession_history [OF assms(1)])
  with cp have "map_option fst (recreateGeminiSession t ss ctx web)
                = Some (contextPrefix ctx pre @ strippedHistory a @ contextPrefix ctx post
                        @ strippedHistory a)"
    by (simp add: upstreamHistorySpec_def)
  with ss pre cp show ?thesis by blast
qed


theorem recreateGeminiSession_refines_spec_witness:
  "(let s1 = (newSession ''u'' 0 1 1)\<lparr>messages := [WELCOME_MESSAGE 0, userMessageOf [TextPart ''a''] [] 5]\<rparr>;
        s2 = (newSession ''u'' 0 2 2)\<lparr>messages := [WELCOME_MESSAGE 0, userMessageOf [TextPart ''b''] [] 6]\<rparr>;
        s3 = (newSession ''u'' 0 3 3)\<lparr>messages := [WELCOME_MESSAGE 0, userMessageOf [TextPart ''c''] [] 7]\<rparr>
    in map_option fst (recreateGeminiSession ''1'' [s3, s2, s1] {''3''} False)
         = Some [Content User_role [TextPart ''c''], Content User_role [TextPart ''a'']]
       \<and> map_option fst (recreateGeminiSession ''9'' [s3, s2, s1] {''3''} False) = None)"
  using recreateGeminiSession_refines_spec
          [of "''1''"
              "[(newSession ''u'' 0 3 3)\<lparr>messages := [WELCOME_MESSAGE 0, userMessageOf [TextPart ''c''] [] 7]\<rparr>,
                (newSession ''u'' 0 2 2)\<lparr>messages := [WELCOME_MESSAGE 0, userMessageOf [TextPart ''b''] [] 6]\<rparr>,
                (newSession ''u'' 0 1 1)\<lparr>messages := [WELCOME_MESSAGE 0, userMessageOf [TextPart ''a''] [] 5]\<rparr>]"
              "{''3''}" False]
        recreateGeminiSession_refines_spec
          [of "''9''"
              "[(newSession ''u'' 0 3 3)\<lparr>messages := [WELCOME_MESSAGE 0, userMessageOf [TextPart ''c''] [] 7]\<rparr>,
                (newSession ''u'' 0 2 2)\<lparr>messages := [WELCOME_MESSAGE 0, userMessageOf [TextPart ''b''] [] 6]\<rparr>,
                (newSession ''u'' 0 1 1)\<lparr>messages := [WELCOME_MESSAGE 0, userMessageOf [TextPart ''a''] [] 5]\<rparr>]"
              "{''3''}" False]
  by (simp add: newSession_def toString_def natToString.simps digitChar_def Let_def
        upstreamHistorySpec_def contextPrefix_def strippedHistory_def userMessageOf_def)

theorem recreateGeminiSession_active_in_context_witness:
  "(let s1 = (newSession ''u'' 0 1 1)\<lparr>messages := [WELCOME_MESSAGE 0, userMessageOf [TextPart ''a''] [] 5]\<rparr>;
        s2 = (newSession ''u'' 0 2 2)\<lparr>messages := [WELCOME_MESSAGE 0, userMessageOf [TextPart ''b''] [] 6]\<rparr>
    in find (\<lambda>s. sessId s = ''1'') [s2, s1] = Some s1 \<and> ''1'' \<in> {''1'', ''2''}
       \<and> map_option fst (recreateGeminiSession ''1'' [s2, s1] {''1'', ''2''} False)
         = Some [Content User_role [TextPart ''b''], Content User_role [TextPart ''a''],
                 Content User_role [TextPart ''a'']])"
proof -
  let ?s1 = "(newSession ''u'' 0 1 1)\<lparr>messages := [WELCOME_MESSAGE 0, userMessageOf [TextPart ''a''] [] 5]\<rparr>"
  let ?s2 = "(newSession ''u'' 0 2 2)\<lparr>messages := [WELCOME_MESSAGE 0, userMessageOf [TextPart ''b''] [] 6]\<rparr>"
  have ids: "sessId ?s1 = ''1''" "sessId ?s2 = ''2''"
    by (simp_all add: newSession_def toString_def natToString.simps digitChar_def)
  have ids0: "sessId (newSession ''u'' 0 1 1) = ''1''" "sessId (newSession ''u'' 0 2 2) = ''2''"
    by (simp_all add: newSession_def toString_def natToString.simps digitChar_def)
  have h1: "find (\<lambda>s. sessId s = ''1'') [?s2, ?s1] = Some ?s1"
    by (simp add: ids)
  have h2: "''1'' \<in> {''1'', ''2''}"
    by simp
  from recreateGeminiSession_active_in_context [OF h1 h2, of False]
  obtain pre post where split: "[?s2, ?s1] = pre @ ?s1 # post"
    and first: "\<forall>s \<in> set pre. sessId s \<noteq> ''1''"
    and hist: "map_option fst (recreateGeminiSession ''1'' [?s2, ?s1] {''1'', ''2''} False)
                = Some (contextPrefix {''1'', ''2''} pre @ strippedHistory ?s1
                        @ contextPrefix {''1'', ''2''} post @ strippedHistory ?s1)"
    by blast
  have "pre = [?s2] \<and> post = []"
  proof (cases pre)
    case Nil
    with split have "?s2 = ?s1" by simp
    then have "sessId ?s2 = sessId ?s1" by (rule arg_cong)
    then show ?thesis by (simp add: ids)
  next
    case (Cons x xs)
    with split have "x = ?s2" and rest: "[?s1] = xs @ ?s1 # post" by simp_all
    from rest have "xs = [] \<and> post = []"
      by (cases xs) simp_all
    with Cons \<open>x = ?s2\<close> show ?thesis by simp
  qed
  with hist have "map_option fst (recreateGeminiSession ''1'' [?s2, ?s1] {''1'', ''2''} False)
      = Some [Content User_role [TextPart ''b''], Content User_role [TextPart ''a''],
              Content User_role [TextPart ''a'']]"
    by (simp add: contextPrefix_def strippedHistory_def ids0 userMessageOf_def)
  with h1 h2 show ?thesis
    by (simp add: Let_def)
qed

section \<open>The active session\<close>

lemma hd_sortByCreatedDesc_in: "xs \<noteq> [] \<Longrightarrow> hd (sortByCreatedDesc xs) \<in> set xs"
proof -
  assume "xs \<noteq> []"
  then have "sortByCreatedDesc xs \<noteq> []"
    by (metis length_0_conv length_sort sortByCreatedDesc_def)
  then have "hd (sortByCreatedDesc xs) \<in> set (sortByCreatedDesc xs)"
    by (rule hd_in_set)
  then show ?thesis
    by (simp add: sortByCreatedDesc_def)
qed

lemma activePresent_iff:
  "activePresent st \<longleftrightarrow> (\<exists>a. activeSessionId st = Some a \<and> (\<exists>s \<in> set (sessions st). sessId s = a))"
  by (auto simp: activePresent_def split: option.splits)

lemma startNewChat_present:
  "activePresent (snd (startNewChat uid t0 isInitial nowId nowCreated st))"
  by (simp add: startNewChat_def activePresent_def Let_def)

lemma loadEffect_present:
  "activePresent (loadEffect stored uid t0 nowId nowCreated st)"
proof -
  have fresh: "activePresent
      (let (newSessionId, st1) = startNewChat uid t0 True nowId nowCreated st
       in st1\<lparr>activeSessionId := Some newSessionId\<rparr>)"
    by (simp add: startNewChat_def activePresent_def Let_def)
  have sorted_case: "activePresent
      (st\<lparr>sessions := sortByCreatedDesc us,
          activeSessionId := Some (sessId (hd (sortByCreatedDesc us)))\<rparr>)"
    if "us \<noteq> []" for us
    using hd_sortByCreatedDesc_in [OF that]
    by (simp add: activePresent_def sortByCreatedDesc_def)
  show ?thesis
  proof (cases stored)
    case Malformed
    with fresh show ?thesis by (simp add: loadEffect_def)
  next
    case Missing
    with fresh show ?thesis by (simp add: loadEffect_def)
  next
    case (Doc xs)
    show ?thesis
    proof (cases "filter (\<lambda>s. userId s = uid) xs = []")
      case True
      with Doc fresh show ?thesis by (simp add: loadEffect_def)
    next
      case False
      with Doc sorted_case [OF False] show ?thesis
        by (simp add: loadEffect_def Let_def)
    qed
  qed
qed

lemma deleteChatSession_present:
  assumes "activePresent st"
  shows "activePresent (deleteChatSession uid t0 sessionId nowId nowCreated st)"
proof -
  let ?rest = "filter (\<lambda>s. sessId s \<noteq> sessionId) (sessions st)"
  from assms obtain a where a: "activeSessionId st = Some a" "a \<in> sessId ` set (sessions st)"
    by (auto simp: activePresent_def split: option.splits)
  show ?thesis
  proof (cases "sessionId = a")
    case True
    show ?thesis
    proof (cases "?rest = []")
      case True
      with \<open>sessionId = a\<close> a show ?thesis
        by (simp add: deleteChatSession_def activePresent_def Let_def)
    next
      case False
      from hd_sortByCreatedDesc_in [OF False]
      have "sessId (hd (sortByCreatedDesc ?rest)) \<in> sessId ` set ?rest"
        by (rule imageI)
      with False \<open>sessionId = a\<close> a show ?thesis
        by (simp add: deleteChatSession_def activePresent_def Let_def)
    qed
  next
    case False
    with a have "a \<in> sessId ` set ?rest" by auto
    with False a show ?thesis
      by (simp add: deleteChatSession_def activePresent_def Let_def)
  qed
qed

lemma applyOp_present: "activePresent st \<Longrightarrow> activePresent (applyOp uid t0 st op)"
  by (cases op) (simp_all add: applyOp_def startNewChat_present deleteChatSession_present)

lemma runOps_present: "activePresent st \<Longrightarrow> activePresent (runOps uid t0 st ops)"
  unfolding runOps_def
  by (induction ops arbitrary: st) (simp_all add: applyOp_present)

text \<open>
  C1. Start from the state the load effect produces (whatever the storage holds, and for any
  clock readings) and run any sequence of \<open>startNewChat\<close> and \<open>deleteChatSession\<close> calls:
  in the state reached, the active id is set to one id, and a session with that id is in
  the collection. The sequence is arbitrary, so this holds after every call of a run.
\<close>

theorem active_session_always_present:
  "\<exists>a. activeSessionId (runOps uid t0 (loadEffect stored uid t0 nowId nowCreated initialState) ops)
          = Some a
       \<and> (\<exists>s \<in> set (sessions (runOps uid t0
                                (loadEffect stored uid t0 nowId nowCreated initialState) ops)).
             sessId s = a)"
  using runOps_present [OF loadEffect_present] by (simp only: activePresent_iff)


theorem active_session_always_present_witness:
  "activeSessionId
     (runOps ''u'' 0
        (loadEffect (Doc [newSession ''v'' 0 3 3, newSession ''u'' 0 1 1]) ''u'' 0 4 4 initialState)
        [CreateSession False 5 5, DeleteSession ''5'' 6 6, DeleteSession ''1'' 7 7]) = Some ''7''
   \<and> sessions
     (runOps ''u'' 0
        (loadEffect (Doc [newSession ''v'' 0 3 3, newSession ''u'' 0 1 1]) ''u'' 0 4 4 initialState)
        [CreateSession False 5 5, DeleteSession ''5'' 6 6, DeleteSession ''1'' 7 7])
       = [newSession ''u'' 0 7 7]"
proof -
  let ?st = "runOps ''u'' 0
        (loadEffect (Doc [newSession ''v'' 0 3 3, newSession ''u'' 0 1 1]) ''u'' 0 4 4 initialState)
        [CreateSession False 5 5, DeleteSession ''5'' 6 6, DeleteSession ''1'' 7 7]"
  have ids: "toString 1 = ''1''" "toString 3 = ''3''" "toString 5 = ''5''" "toString 7 = ''7''"
    by (simp_all add: toString_def natToString.simps digitChar_def)
  have run: "sessions ?st = [newSession ''u'' 0 7 7]"
    by (simp add: runOps_def applyOp_def loadEffect_def startNewChat_def deleteChatSession_def
          initialState_def sortByCreatedDesc_def newSession_def ids Let_def)
  from active_session_always_present
         [of "''u''" 0 "Doc [newSession ''v'' 0 3 3, newSession ''u'' 0 1 1]" 4 4
             "[CreateSession False 5 5, DeleteSession ''5'' 6 6, DeleteSession ''1'' 7 7]"]
  obtain a where "activeSessionId ?st = Some a" and "\<exists>s \<in> set (sessions ?st). sessId s = a"
    by blast
  with run have "activeSessionId ?st = Some ''7''"
    by (simp add: newSession_def ids)
  with run show ?thesis by simp
qed

section \<open>Deleting the active session\<close>

lemma hd_insort_key:
  "hd (insort_key f x ys) = (if ys = [] \<or> f x \<le> f (hd ys) then x else hd ys)"
  by (cases ys) simp_all

lemma hd_sort_key_first_least:
  fixes f :: "'a \<Rightarrow> 'k::linorder"
  assumes "xs \<noteq> []"
  shows "\<exists>pre post. xs = pre @ hd (sort_key f xs) # post
           \<and> (\<forall>s \<in> set pre. f (hd (sort_key f xs)) < f s)
           \<and> (\<forall>s \<in> set post. f (hd (sort_key f xs)) \<le> f s)"
  using assms
proof (induction xs)
  case Nil
  then show ?case by simp
next
  case (Cons x xs)
  show ?case
  proof (cases "xs = []")
    case True
    then have "x # xs = [] @ hd (sort_key f (x # xs)) # []" by simp
    then show ?thesis by fastforce
  next
    case False
    let ?m = "hd (sort_key f xs)"
    from Cons.IH [OF False] obtain pre post where xs: "xs = pre @ ?m # post"
      and pre: "\<forall>s \<in> set pre. f ?m < f s" and post: "\<forall>s \<in> set post. f ?m \<le> f s"
      by blast
    from False have ne: "sort_key f xs \<noteq> []"
      by (metis length_0_conv length_sort)
    have hd_eq: "hd (sort_key f (x # xs)) = (if f x \<le> f ?m then x else ?m)"
      using ne by (simp add: hd_insort_key)
    show ?thesis
    proof (cases "f x \<le> f ?m")
      case True
      have "\<forall>s \<in> set xs. f x \<le> f s"
      proof
        fix s assume "s \<in> set xs"
        then have "s \<in> set pre \<or> s = ?m \<or> s \<in> set post"
          by (subst (asm) xs) auto
        with pre post have "f ?m \<le> f s" by auto
        with True show "f x \<le> f s" by simp
      qed
      with True hd_eq have "x # xs = [] @ hd (sort_key f (x # xs)) # xs
          \<and> (\<forall>s \<in> set []. f (hd (sort_key f (x # xs))) < f s)
          \<and> (\<forall>s \<in> set xs. f (hd (sort_key f (x # xs))) \<le> f s)"
        by simp
      then show ?thesis by blast
    next
      case False
      with hd_eq have h: "hd (sort_key f (x # xs)) = ?m" by simp
      from False pre have "\<forall>s \<in> set (x # pre). f ?m < f s" by simp
      moreover from xs have "x # xs = (x # pre) @ ?m # post" by simp
      ultimately have "\<exists>pre' post'. x # xs = pre' @ ?m # post'
          \<and> (\<forall>s \<in> set pre'. f ?m < f s)
          \<and> (\<forall>s \<in> set post'. f ?m \<le> f s)"
        using post by blast
      then show ?thesis by (simp only: h)
    qed
  qed
qed

lemma mostRecent_first_greatest:
  assumes "xs \<noteq> []"
  shows "\<exists>pre post. xs = pre @ hd (sortByCreatedDesc xs) # post
           \<and> (\<forall>s \<in> set pre. createdAt s < createdAt (hd (sortByCreatedDesc xs)))
           \<and> (\<forall>s \<in> set post. createdAt s \<le> createdAt (hd (sortByCreatedDesc xs)))"
  using hd_sort_key_first_least [OF assms, of "\<lambda>s. - createdAt s"]
  by (simp add: sortByCreatedDesc_def)

text \<open>
  C3. Delete the session whose id is the active id. If sessions with other ids remain, the
  new collection is exactly those sessions, in their order (only sessions with the deleted id
  are gone), and the new active id is that of a remaining session whose creation timestamp
  is greatest among the remainder (the first such session in collection order). If none
  remains, the new collection is exactly one freshly seeded session, with the title
  \<open>New Chat\<close> and the welcome message as its only message, and its id is the active id.
\<close>

theorem deleteChatSession_active:
  assumes "activeSessionId st = Some a"
  shows "(filter (\<lambda>s. sessId s \<noteq> a) (sessions st) \<noteq> [] \<longrightarrow>
            sessions (deleteChatSession uid t0 a nowId nowCreated st)
              = filter (\<lambda>s. sessId s \<noteq> a) (sessions st)
            \<and> (\<exists>pre m post.
                  filter (\<lambda>s. sessId s \<noteq> a) (sessions st) = pre @ m # post
                  \<and> activeSessionId (deleteChatSession uid t0 a nowId nowCreated st) = Some (sessId m)
                  \<and> (\<forall>s \<in> set pre. createdAt s < createdAt m)
                  \<and> (\<forall>s \<in> set post. createdAt s \<le> createdAt m)))
       \<and> (filter (\<lambda>s. sessId s \<noteq> a) (sessions st) = [] \<longrightarrow>
            (\<exists>s. sessions (deleteChatSession uid t0 a nowId nowCreated st) = [s]
                 \<and> activeSessionId (deleteChatSession uid t0 a nowId nowCreated st) = Some (sessId s)
                 \<and> title s = ''New Chat'' \<and> messages s = [WELCOME_MESSAGE t0]
                 \<and> sessId s = toString nowId \<and> createdAt s = nowCreated \<and> userId s = uid))"
proof (intro conjI impI)
  let ?rest = "filter (\<lambda>s. sessId s \<noteq> a) (sessions st)"
  let ?st' = "deleteChatSession uid t0 a nowId nowCreated st"
  {
    assume ne: "?rest \<noteq> []"
    with assms show "sessions ?st' = ?rest"
      by (simp add: deleteChatSession_def Let_def)
    from ne assms have act: "activeSessionId ?st' = Some (sessId (hd (sortByCreatedDesc ?rest)))"
      by (simp add: deleteChatSession_def Let_def)
    from mostRecent_first_greatest [OF ne] act
    show "\<exists>pre m post. ?rest = pre @ m # post
            \<and> activeSessionId ?st' = Some (sessId m)
            \<and> (\<forall>s \<in> set pre. createdAt s < createdAt m)
            \<and> (\<forall>s \<in> set post. createdAt s \<le> createdAt m)"
      by metis
  }
  {
    assume "?rest = []"
    with assms have "sessions ?st' = [newSession uid t0 nowId nowCreated]"
      and "activeSessionId ?st' = Some (sessId (newSession uid t0 nowId nowCreated))"
      by (simp_all add: deleteChatSession_def Let_def)
    then show "\<exists>s. sessions ?st' = [s] \<and> activeSessionId ?st' = Some (sessId s)
                 \<and> title s = ''New Chat'' \<and> messages s = [WELCOME_MESSAGE t0]
                 \<and> sessId s = toString nowId \<and> createdAt s = nowCreated \<and> userId s = uid"
      by (simp add: newSession_def)
  }
qed


theorem deleteChatSession_active_witness:
  "activeSessionId \<lparr> sessions = [newSession ''A'' 0 200 200, newSession ''A'' 0 100 100],
                     activeSessionId = Some ''200'', contextSessionIds = {} \<rparr> = Some ''200''
   \<and> sessions (deleteChatSession ''A'' 0 ''200'' 300 300
        \<lparr> sessions = [newSession ''A'' 0 200 200, newSession ''A'' 0 100 100],
          activeSessionId = Some ''200'', contextSessionIds = {} \<rparr>) = [newSession ''A'' 0 100 100]
   \<and> activeSessionId (deleteChatSession ''A'' 0 ''200'' 300 300
        \<lparr> sessions = [newSession ''A'' 0 200 200, newSession ''A'' 0 100 100],
          activeSessionId = Some ''200'', contextSessionIds = {} \<rparr>) = Some ''100''
   \<and> sessions (deleteChatSession ''A'' 0 ''100'' 300 300
        \<lparr> sessions = [newSession ''A'' 0 100 100],
          activeSessionId = Some ''100'', contextSessionIds = {} \<rparr>) = [newSession ''A'' 0 300 300]
   \<and> activeSessionId (deleteChatSession ''A'' 0 ''100'' 300 300
        \<lparr> sessions = [newSession ''A'' 0 100 100],
          activeSessionId = Some ''100'', contextSessionIds = {} \<rparr>) = Some ''300''"
proof -
  let ?S1 = "newSession ''A'' 0 100 100"
  let ?S2 = "newSession ''A'' 0 200 200"
  let ?st = "\<lparr> sessions = [?S2, ?S1], activeSessionId = Some ''200'', contextSessionIds = {} \<rparr>"
  let ?st1 = "\<lparr> sessions = [?S1], activeSessionId = Some ''100'', contextSessionIds = {} \<rparr>"
  have ids: "sessId ?S1 = ''100''" "sessId ?S2 = ''200''" "toString 300 = ''300''"
    by (simp_all add: newSession_def toString_def natToString.simps digitChar_def)
  have rest1: "filter (\<lambda>s. sessId s \<noteq> ''100'') (sessions ?st1) = []"
    by (simp add: ids)
  have h: "activeSessionId ?st = Some ''200''" by simp
  have h1: "activeSessionId ?st1 = Some ''100''" by simp
  note two = deleteChatSession_active [OF h, of "''A''" 0 300 300, THEN conjunct1, rule_format]
  note last = deleteChatSession_active [OF h1, of "''A''" 0 300 300, THEN conjunct2, rule_format]
  have ne: "filter (\<lambda>s. sessId s \<noteq> ''200'') (sessions ?st) \<noteq> []"
    by (simp add: ids)
  from two [OF ne] have a: "sessions (deleteChatSession ''A'' 0 ''200'' 300 300 ?st) = [?S1]"
    by (simp add: ids)
  from two [OF ne] obtain pre m post where split: "[?S1] = pre @ m # post"
    and act: "activeSessionId (deleteChatSession ''A'' 0 ''200'' 300 300 ?st) = Some (sessId m)"
    by (auto simp: ids)
  from split have "m = ?S1"
    by (cases pre) simp_all
  with act have b: "activeSessionId (deleteChatSession ''A'' 0 ''200'' 300 300 ?st) = Some ''100''"
    by (simp add: ids)
  from last [OF rest1] obtain s
    where "sessions (deleteChatSession ''A'' 0 ''100'' 300 300 ?st1) = [s]"
      and "activeSessionId (deleteChatSession ''A'' 0 ''100'' 300 300 ?st1) = Some (sessId s)"
      and "title s = ''New Chat''" "messages s = [WELCOME_MESSAGE 0]"
      and "sessId s = toString 300" "createdAt s = 300" "userId s = ''A''"
    by blast
  then have c: "sessions (deleteChatSession ''A'' 0 ''100'' 300 300 ?st1) = [newSession ''A'' 0 300 300]"
    and d: "activeSessionId (deleteChatSession ''A'' 0 ''100'' 300 300 ?st1) = Some ''300''"
    by (simp_all add: newSession_def ids)
  from h a b c d show ?thesis by simp
qed

section \<open>Saving and loading\<close>

lemma saveEffect_Doc:
  "stored \<noteq> Malformed \<Longrightarrow>
   saveEffect stored uid sess True
     = Doc (filter (\<lambda>s. userId s \<noteq> uid) (docSessions stored) @ sess)"
  by (cases stored) (simp_all add: saveEffect_def docSessions_def)

lemma saveEffect_write_throws: "saveEffect stored uid sess False = stored"
  by (cases stored) (simp_all add: saveEffect_def)

lemma filter_own:
  assumes "\<forall>s \<in> set sess. userId s = uid"
  shows "filter (\<lambda>s. userId s = uid) (filter (\<lambda>s. userId s \<noteq> uid) xs @ sess) = sess"
    and "filter (\<lambda>s. userId s \<noteq> uid) (filter (\<lambda>s. userId s \<noteq> uid) xs @ sess)
           = filter (\<lambda>s. userId s \<noteq> uid) xs"
proof -
  have "filter (\<lambda>s. userId s = uid) (filter (\<lambda>s. userId s \<noteq> uid) xs) = []"
    by (induction xs) simp_all
  moreover from assms have "filter (\<lambda>s. userId s = uid) sess = sess"
    by (simp add: filter_id_conv)
  ultimately show "filter (\<lambda>s. userId s = uid) (filter (\<lambda>s. userId s \<noteq> uid) xs @ sess) = sess"
    by simp
  from assms have "filter (\<lambda>s. userId s \<noteq> uid) sess = []"
    by (simp add: filter_empty_conv)
  then show "filter (\<lambda>s. userId s \<noteq> uid) (filter (\<lambda>s. userId s \<noteq> uid) xs @ sess)
           = filter (\<lambda>s. userId s \<noteq> uid) xs"
    by simp
qed

lemma sortByCreatedDesc_fixed_iff:
  "sortByCreatedDesc xs = xs \<longleftrightarrow> sorted_wrt (\<lambda>x y. createdAt y \<le> createdAt x) xs"
proof -
  have desc: "sorted (map (\<lambda>s. - createdAt s) ys)
                \<longleftrightarrow> sorted_wrt (\<lambda>x y. createdAt y \<le> createdAt x) ys" for ys
    by (simp add: sorted_map)
  show ?thesis
  proof
    assume "sortByCreatedDesc xs = xs"
    then have "sorted (map (\<lambda>s. - createdAt s) xs)"
      using sorted_sort_key [of "\<lambda>s. - createdAt s" xs] by (simp add: sortByCreatedDesc_def)
    then show "sorted_wrt (\<lambda>x y. createdAt y \<le> createdAt x) xs"
      by (simp only: desc)
  next
    assume "sorted_wrt (\<lambda>x y. createdAt y \<le> createdAt x) xs"
    then have "sorted (map (\<lambda>s. - createdAt s) xs)"
      by (simp only: desc)
    then show "sortByCreatedDesc xs = xs"
      by (simp add: sortByCreatedDesc_def sort_key_id_if_sorted)
  qed
qed

lemma loadEffect_Doc:
  "sessions (loadEffect (Doc xs) uid t0 nowId nowCreated st)
     = (if filter (\<lambda>s. userId s = uid) xs \<noteq> []
        then sortByCreatedDesc (filter (\<lambda>s. userId s = uid) xs)
        else [newSession uid t0 nowId nowCreated])"
  by (simp add: loadEffect_def startNewChat_def Let_def)

text \<open>
  C4, as the code has it. Let the stored document be readable and let every session of the
  in-memory collection belong to the user. When the write of the save succeeds, saving and
  then loading for that user yields the saved collection in stable descending order of
  creation time when it is not empty, so the loaded collection equals the saved one exactly
  when the saved one already is in descending order of creation time; for the empty
  collection the load yields one freshly seeded session. When the write throws, the stored
  document stays as it was, so the load that follows sees the old document. Whether the
  write succeeds or throws, the sessions of every other user are in the document as they
  were, in their order.
\<close>

theorem save_then_load:
  assumes "stored \<noteq> Malformed" and "\<forall>s \<in> set sess. userId s = uid"
  shows "(sess \<noteq> [] \<longrightarrow>
            sessions (loadEffect (saveEffect stored uid sess True) uid t0 nowId nowCreated st)
              = sortByCreatedDesc sess
            \<and> (sessions (loadEffect (saveEffect stored uid sess True) uid t0 nowId nowCreated st)
                  = sess
                 \<longleftrightarrow> sorted_wrt (\<lambda>x y. createdAt y \<le> createdAt x) sess))
       \<and> (sess = [] \<longrightarrow>
            sessions (loadEffect (saveEffect stored uid sess True) uid t0 nowId nowCreated st)
              = [newSession uid t0 nowId nowCreated])
       \<and> loadEffect (saveEffect stored uid sess False) uid t0 nowId nowCreated st
           = loadEffect stored uid t0 nowId nowCreated st
       \<and> filter (\<lambda>s. userId s \<noteq> uid) (docSessions (saveEffect stored uid sess writeOk))
           = filter (\<lambda>s. userId s \<noteq> uid) (docSessions stored)"
proof -
  let ?others = "filter (\<lambda>s. userId s \<noteq> uid) (docSessions stored)"
  have saved: "saveEffect stored uid sess True = Doc (?others @ sess)"
    using assms(1) by (rule saveEffect_Doc)
  have mine: "filter (\<lambda>s. userId s = uid) (?others @ sess) = sess"
    using assms(2) by (rule filter_own(1))
  have load: "sessions (loadEffect (Doc (?others @ sess)) uid t0 nowId nowCreated st)
      = (if sess \<noteq> [] then sortByCreatedDesc sess else [newSession uid t0 nowId nowCreated])"
    using loadEffect_Doc [of "?others @ sess" uid t0 nowId nowCreated st]
    by (simp only: mine)
  have frame_ok: "filter (\<lambda>s. userId s \<noteq> uid) (docSessions (saveEffect stored uid sess True))
                    = ?others"
    unfolding saved using filter_own(2) [OF assms(2)] by (simp add: docSessions_def)
  have frame: "filter (\<lambda>s. userId s \<noteq> uid) (docSessions (saveEffect stored uid sess writeOk))
                 = ?others"
  proof (cases writeOk)
    case True
    with frame_ok show ?thesis by simp
  next
    case False
    then show ?thesis by (simp add: saveEffect_write_throws)
  qed
  show ?thesis
  proof (intro conjI impI)
    assume ne: "sess \<noteq> []"
    with load
    show sorted: "sessions (loadEffect (saveEffect stored uid sess True) uid t0 nowId nowCreated st)
                      = sortByCreatedDesc sess"
      unfolding saved by simp
    show "sessions (loadEffect (saveEffect stored uid sess True) uid t0 nowId nowCreated st) = sess
            \<longleftrightarrow> sorted_wrt (\<lambda>x y. createdAt y \<le> createdAt x) sess"
      by (simp only: sorted sortByCreatedDesc_fixed_iff)
  next
    assume "sess = []"
    with load
    show "sessions (loadEffect (saveEffect stored uid sess True) uid t0 nowId nowCreated st)
            = [newSession uid t0 nowId nowCreated]"
      unfolding saved by (simp only: if_False not_True_eq_False not_not refl)
  next
    show "loadEffect (saveEffect stored uid sess False) uid t0 nowId nowCreated st
            = loadEffect stored uid t0 nowId nowCreated st"
      by (simp only: saveEffect_write_throws)
  next
    show "filter (\<lambda>s. userId s \<noteq> uid) (docSessions (saveEffect stored uid sess writeOk))
            = ?others"
      by (rule frame)
  qed
qed

theorem save_then_load_witness:
  "Doc [newSession ''v'' 0 50 50, newSession ''u'' 0 100 100] \<noteq> Malformed
   \<and> userId (newSession ''u'' 0 200 200) = ''u'' \<and> userId (newSession ''u'' 0 100 100) = ''u''
   \<and> sessions (loadEffect
        (saveEffect (Doc [newSession ''v'' 0 50 50, newSession ''u'' 0 100 100]) ''u''
           [newSession ''u'' 0 200 200, newSession ''u'' 0 100 100] True)
        ''u'' 0 300 300 initialState)
       = [newSession ''u'' 0 200 200, newSession ''u'' 0 100 100]
   \<and> sessions (loadEffect
        (saveEffect (Doc [newSession ''v'' 0 50 50, newSession ''u'' 0 100 100]) ''u''
           [newSession ''u'' 0 200 200, newSession ''u'' 0 100 100] False)
        ''u'' 0 300 300 initialState)
       = [newSession ''u'' 0 100 100]
   \<and> filter (\<lambda>s. userId s \<noteq> ''u'')
        (docSessions (saveEffect (Doc [newSession ''v'' 0 50 50, newSession ''u'' 0 100 100]) ''u''
           [newSession ''u'' 0 200 200, newSession ''u'' 0 100 100] True))
       = [newSession ''v'' 0 50 50]"
proof -
  let ?stored = "Doc [newSession ''v'' 0 50 50, newSession ''u'' 0 100 100]"
  let ?sess = "[newSession ''u'' 0 200 200, newSession ''u'' 0 100 100]"
  have h1: "?stored \<noteq> Malformed" by simp
  have h2: "\<forall>s \<in> set ?sess. userId s = ''u''" by (simp add: newSession_def)
  have ne: "?sess \<noteq> []" by simp
  have desc: "sorted_wrt (\<lambda>x y. createdAt y \<le> createdAt x) ?sess" by (simp add: newSession_def)
  note inst = save_then_load [OF h1 h2, of 0 300 300 initialState True]
  from inst ne desc
  have a: "sessions (loadEffect (saveEffect ?stored ''u'' ?sess True) ''u'' 0 300 300 initialState)
             = ?sess"
    by blast
  from inst
  have "loadEffect (saveEffect ?stored ''u'' ?sess False) ''u'' 0 300 300 initialState
          = loadEffect ?stored ''u'' 0 300 300 initialState"
    by blast
  then have b: "sessions (loadEffect (saveEffect ?stored ''u'' ?sess False) ''u'' 0 300 300
                            initialState) = [newSession ''u'' 0 100 100]"
    by (simp add: loadEffect_Doc sortByCreatedDesc_def newSession_def)
  from inst
  have "filter (\<lambda>s. userId s \<noteq> ''u'') (docSessions (saveEffect ?stored ''u'' ?sess True))
          = filter (\<lambda>s. userId s \<noteq> ''u'') (docSessions ?stored)"
    by blast
  then have c: "filter (\<lambda>s. userId s \<noteq> ''u'') (docSessions (saveEffect ?stored ''u'' ?sess True))
          = [newSession ''v'' 0 50 50]"
    by (simp add: docSessions_def newSession_def)
  from h1 h2 a b c show ?thesis
    by simp
qed

text \<open>
  C4 as stated fails on the code. A collection that is not in descending order of creation
  time (here the older session first) comes back reordered by the load; the empty collection
  comes back as one seeded session; and when the write of the save throws, a collection in
  descending order comes back as what was stored before.
\<close>

theorem save_then_load_counterexample:
  "sessions (loadEffect
      (saveEffect (Doc []) ''u'' [newSession ''u'' 0 100 100, newSession ''u'' 0 200 200] True)
      ''u'' 0 300 300 initialState)
     \<noteq> [newSession ''u'' 0 100 100, newSession ''u'' 0 200 200]
   \<and> sessions (loadEffect (saveEffect (Doc []) ''u'' [] True) ''u'' 0 300 300 initialState) \<noteq> []
   \<and> sessions (loadEffect
      (saveEffect (Doc [newSession ''u'' 0 100 100]) ''u''
         [newSession ''u'' 0 200 200, newSession ''u'' 0 100 100] False)
      ''u'' 0 300 300 initialState)
     \<noteq> [newSession ''u'' 0 200 200, newSession ''u'' 0 100 100]"
  by (simp add: saveEffect_def loadEffect_def startNewChat_def sortByCreatedDesc_def
        newSession_def initialState_def Let_def)

section \<open>Classifying a caught error\<close>


lemma setActiveChatHistory_target:
  assumes "i < length ss" and "sessId (ss ! i) = a" and "a \<noteq> []"
  shows "messages (setActiveChatHistory (Some a) u ss ! i) = applyUpdater u (messages (ss ! i))"
    and "sessId (setActiveChatHistory (Some a) u ss ! i) = a"
    and "length (setActiveChatHistory (Some a) u ss) = length ss"
  using assms
  by (simp_all add: setActiveChatHistory_def updateSessionMessages_def updateOneSession_def Let_def)




section \<open>Progress updates of a generation\<close>

lemma replaceLast_snoc: "replaceLast resp (pre @ [m]) = pre @ [resp]"
  by (simp add: replaceLast_def)

lemma map_by_timestamp_snoc:
  assumes "timestamp m = T" and "T \<notin> timestamp ` set pre"
  shows "map (\<lambda>x. if timestamp x = T then f x else x) (pre @ [m]) = pre @ [f m]"
proof -
  from assms(2) have "map (\<lambda>x. if timestamp x = T then f x else x) pre = pre"
    by (intro map_idI) auto
  with assms(1) show ?thesis by simp
qed

lemma filter_by_timestamp_snoc:
  assumes "timestamp m = T" and "T \<notin> timestamp ` set pre"
  shows "filter (\<lambda>x. timestamp x = T) (pre @ [m]) = [m]"
proof -
  from assms(2) have "filter (\<lambda>x. timestamp x = T) pre = []"
    by (auto simp: filter_empty_conv)
  with assms(1) show ?thesis by simp
qed

lemma timestamp_chunkVars [simp]:
  "timestamp (currentResponse (chunkVars v c)) = timestamp (currentResponse v)"
  by (simp add: chunkVars_def Let_def)

lemma fst_chatChunk [simp]: "fst (chatChunk active vs c) = chunkVars (fst vs) c"
  by (simp add: chatChunk_def Let_def)

lemma fst_foldl_chatChunk:
  "fst (foldl (chatChunk active) vs chunks) = foldl chunkVars (fst vs) chunks"
  by (induction chunks arbitrary: vs) simp_all

lemma timestamp_foldl_chunkVars [simp]:
  "timestamp (currentResponse (foldl chunkVars v chunks)) = timestamp (currentResponse v)"
  by (induction chunks arbitrary: v) simp_all

text \<open>The state of the target session while the stream is consumed: the messages that were
  there before the loop, then the current response.\<close>

lemma chatChunk_target:
  assumes "i < length (snd vs)" and "sessId (snd vs ! i) = a" and "a \<noteq> []"
    and "messages (snd vs ! i) = pre @ [m]"
  shows "messages (snd (chatChunk (Some a) vs c) ! i) = pre @ [currentResponse (chunkVars (fst vs) c)]"
    and "sessId (snd (chatChunk (Some a) vs c) ! i) = a"
    and "length (snd (chatChunk (Some a) vs c)) = length (snd vs)"
  using assms setActiveChatHistory_target [of i "snd vs" a
          "Fn (replaceLast (currentResponse (chunkVars (fst vs) c)))"]
  by (simp_all add: chatChunk_def Let_def applyUpdater_def replaceLast_snoc)

lemma foldl_chatChunk_target:
  assumes "i < length (snd vs)" and "sessId (snd vs ! i) = a" and "a \<noteq> []"
    and "messages (snd vs ! i) = pre @ [currentResponse (fst vs)]"
  shows "messages (snd (foldl (chatChunk (Some a)) vs chunks) ! i)
           = pre @ [currentResponse (fst (foldl (chatChunk (Some a)) vs chunks))]
         \<and> sessId (snd (foldl (chatChunk (Some a)) vs chunks) ! i) = a
         \<and> length (snd (foldl (chatChunk (Some a)) vs chunks)) = length (snd vs)"
  using assms
proof (induction chunks arbitrary: vs)
  case Nil
  then show ?case by simp
next
  case (Cons c chunks)
  let ?vs1 = "chatChunk (Some a) vs c"
  from chatChunk_target [OF Cons.prems(1-3) Cons.prems(4)]
  have step: "messages (snd ?vs1 ! i) = pre @ [currentResponse (fst ?vs1)]"
    "sessId (snd ?vs1 ! i) = a" "length (snd ?vs1) = length (snd vs)"
    by simp_all
  with Cons.prems(1) have "i < length (snd ?vs1)" by simp
  from Cons.IH [OF this step(2) Cons.prems(3) step(1)] step(3)
  show ?case by simp
qed

lemma chatBegin_target:
  assumes "i < length ss" and "sessId (ss ! i) = a" and "a \<noteq> []"
  shows "messages (chatBegin (Some a) ps dps now1 now2 ss ! i)
           = (messages (ss ! i) @ [userMessageOf ps dps now1]) @ [placeholderResponse now2]"
    and "sessId (chatBegin (Some a) ps dps now1 now2 ss ! i) = a"
    and "length (chatBegin (Some a) ps dps now1 now2 ss) = length ss"
proof -
  let ?u1 = "Fn (\<lambda>prev. prev @ [userMessageOf ps dps now1])"
  let ?u2 = "Fn (\<lambda>prev. prev @ [placeholderResponse now2])"
  let ?ss1 = "setActiveChatHistory (Some a) ?u1 ss"
  note first = setActiveChatHistory_target [OF assms, of ?u1]
  from first(3) assms(1) have i1: "i < length ?ss1" by simp
  note second = setActiveChatHistory_target [OF i1 first(2) assms(3), of ?u2]
  from second(1) first(1)
  show "messages (chatBegin (Some a) ps dps now1 now2 ss ! i)
           = (messages (ss ! i) @ [userMessageOf ps dps now1]) @ [placeholderResponse now2]"
    by (simp add: chatBegin_def applyUpdater_def)
  from second(2) show "sessId (chatBegin (Some a) ps dps now1 now2 ss ! i) = a"
    by (simp add: chatBegin_def)
  from second(3) first(3) show "length (chatBegin (Some a) ps dps now1 now2 ss) = length ss"
    by (simp add: chatBegin_def)
qed

lemma chatStream_target:
  assumes "i < length ss" and "sessId (ss ! i) = a" and "a \<noteq> []"
  shows "messages (snd (chatStream (Some a) now2 chunks (chatBegin (Some a) ps dps now1 now2 ss)) ! i)
           = (messages (ss ! i) @ [userMessageOf ps dps now1])
             @ [currentResponse (fst (chatStream (Some a) now2 chunks
                                        (chatBegin (Some a) ps dps now1 now2 ss)))]"
proof -
  let ?begun = "chatBegin (Some a) ps dps now1 now2 ss"
  let ?vs = "(initialStreamVars now2, ?begun)"
  note b = chatBegin_target [OF assms, of ps dps now1 now2]
  have "i < length (snd ?vs)" using b(3) assms(1) by simp
  moreover have "sessId (snd ?vs ! i) = a" using b(2) by simp
  moreover have "messages (snd ?vs ! i)
      = (messages (ss ! i) @ [userMessageOf ps dps now1]) @ [currentResponse (fst ?vs)]"
    using b(1) by (simp add: initialStreamVars_def)
  ultimately show ?thesis
    unfolding chatStream_def using assms(3) foldl_chatChunk_target by blast
qed

lemma timestamp_chatStream:
  "timestamp (currentResponse (fst (chatStream active now2 chunks ss))) = now2 + 1"
  by (simp add: chatStream_def fst_foldl_chatChunk initialStreamVars_def placeholderResponse_def)


text \<open>
  A single generation in flight on the target session: the user message and the placeholder
  have been appended, the timestamp of the placeholder is unique in the session, and nothing
  else is appended while the stream is consumed. Then every update of the stream loop leaves
  the message list as it was except that the message with the placeholder's timestamp is
  replaced by the current response; after any number of chunks exactly one message carries
  that timestamp, and no message has been added. After the chunks \<open>Hi\<close>, \<open>Hi there\<close>,
  \<open>Hi there!\<close> that one message has the text \<open>Hi there!\<close>. A progress update of the video
  branch rewrites the progress text of the messages with the loading timestamp and changes
  neither the number of messages nor any timestamp.
\<close>

theorem single_generation_updates_in_place:
  assumes "i < length ss" and "sessId (ss ! i) = a" and "a \<noteq> []"
    and "now2 + 1 \<notin> timestamp ` set (messages (ss ! i))" and "now2 + 1 \<noteq> now1"
  shows "(\<forall>chunks c.
            messages (snd (chatStream (Some a) now2 (chunks @ [c])
                             (chatBegin (Some a) ps dps now1 now2 ss)) ! i)
              = map (\<lambda>m. if timestamp m = now2 + 1
                          then currentResponse (fst (chatStream (Some a) now2 (chunks @ [c])
                                                      (chatBegin (Some a) ps dps now1 now2 ss)))
                          else m)
                    (messages (snd (chatStream (Some a) now2 chunks
                                      (chatBegin (Some a) ps dps now1 now2 ss)) ! i)))
       \<and> (\<forall>chunks.
            filter (\<lambda>m. timestamp m = now2 + 1)
                   (messages (snd (chatStream (Some a) now2 chunks
                                     (chatBegin (Some a) ps dps now1 now2 ss)) ! i))
              = [currentResponse (fst (chatStream (Some a) now2 chunks
                                         (chatBegin (Some a) ps dps now1 now2 ss)))]
            \<and> length (messages (snd (chatStream (Some a) now2 chunks
                                        (chatBegin (Some a) ps dps now1 now2 ss)) ! i))
                = length (messages (ss ! i)) + 2)
       \<and> (\<forall>c1 c2 c3 :: chunk.
            chunkText c1 = Some ''Hi'' \<and> chunkText c2 = Some ''Hi there''
            \<and> chunkText c3 = Some ''Hi there!'' \<longrightarrow>
            (\<exists>resp. filter (\<lambda>m. timestamp m = now2 + 1)
                       (messages (handleSendMessageChat (Some a) ps dps now1 now2 [c1, c2, c3] None ss ! i))
                     = [resp]
                   \<and> parts resp = [TextPart ''Hi there!'']
                   \<and> displayParts resp = [textDisplayPart ''Hi there!'']))
       \<and> (\<forall>T status.
            messages (onProgress (Some a) T status ss ! i)
              = map (\<lambda>msg. if timestamp msg = T then msg\<lparr>generationProgress := Some status\<rparr>
                            else msg) (messages (ss ! i))
            \<and> map timestamp (messages (onProgress (Some a) T status ss ! i))
                = map timestamp (messages (ss ! i)))"
proof (intro conjI allI impI)
  let ?begun = "chatBegin (Some a) ps dps now1 now2 ss"
  let ?pre = "messages (ss ! i) @ [userMessageOf ps dps now1]"
  let ?P = "now2 + 1"
  have unique: "?P \<notin> timestamp ` set ?pre"
    using assms(4,5) by (simp add: userMessageOf_def)
  have shape: "messages (snd (chatStream (Some a) now2 chunks ?begun) ! i)
                 = ?pre @ [currentResponse (fst (chatStream (Some a) now2 chunks ?begun))]"
    for chunks
    by (rule chatStream_target [OF assms(1-3)])
  have ts: "timestamp (currentResponse (fst (chatStream (Some a) now2 chunks ?begun))) = ?P"
    for chunks
    by (rule timestamp_chatStream)
  {
    fix chunks c
    let ?old = "currentResponse (fst (chatStream (Some a) now2 chunks ?begun))"
    let ?new = "currentResponse (fst (chatStream (Some a) now2 (chunks @ [c]) ?begun))"
    have "map (\<lambda>m. if timestamp m = ?P then ?new else m) (?pre @ [?old]) = ?pre @ [?new]"
      using map_by_timestamp_snoc [OF ts [of chunks] unique, where f = "\<lambda>_. ?new"] .
    then show "messages (snd (chatStream (Some a) now2 (chunks @ [c]) ?begun) ! i)
              = map (\<lambda>m. if timestamp m = ?P then ?new else m)
                    (messages (snd (chatStream (Some a) now2 chunks ?begun) ! i))"
      by (simp only: shape)
  }
  {
    fix chunks
    show "filter (\<lambda>m. timestamp m = ?P) (messages (snd (chatStream (Some a) now2 chunks ?begun) ! i))
            = [currentResponse (fst (chatStream (Some a) now2 chunks ?begun))]"
      unfolding shape by (rule filter_by_timestamp_snoc [OF ts unique])
    show "length (messages (snd (chatStream (Some a) now2 chunks ?begun) ! i))
            = length (messages (ss ! i)) + 2"
      unfolding shape by simp
  }
  {
    fix c1 c2 c3 :: chunk
    assume texts: "chunkText c1 = Some ''Hi'' \<and> chunkText c2 = Some ''Hi there''
                     \<and> chunkText c3 = Some ''Hi there!''"
    let ?resp = "currentResponse (fst (chatStream (Some a) now2 [c1, c2, c3] ?begun))"
    have run: "handleSendMessageChat (Some a) ps dps now1 now2 [c1, c2, c3] None ss
                 = snd (chatStream (Some a) now2 [c1, c2, c3] ?begun)"
      by (simp add: handleSendMessageChat_def Let_def)
    have "filter (\<lambda>m. timestamp m = ?P)
            (messages (handleSendMessageChat (Some a) ps dps now1 now2 [c1, c2, c3] None ss ! i))
          = [?resp]"
      unfolding run shape by (rule filter_by_timestamp_snoc [OF ts unique])
    moreover from texts have "parts ?resp = [TextPart ''Hi there!'']"
      and "displayParts ?resp = [textDisplayPart ''Hi there!'']"
      by (simp_all add: chatStream_def chatChunk_def chunkVars_def Let_def)
    ultimately show "\<exists>resp. filter (\<lambda>m. timestamp m = ?P)
            (messages (handleSendMessageChat (Some a) ps dps now1 now2 [c1, c2, c3] None ss ! i))
          = [resp]
        \<and> parts resp = [TextPart ''Hi there!'']
        \<and> displayParts resp = [textDisplayPart ''Hi there!'']"
      by blast
  }
  {
    fix T status
    show upd: "messages (onProgress (Some a) T status ss ! i)
              = map (\<lambda>msg. if timestamp msg = T then msg\<lparr>generationProgress := Some status\<rparr>
                            else msg) (messages (ss ! i))"
      using setActiveChatHistory_target(1) [OF assms(1-3), of "Fn (onProgressUpdate T status)"]
      by (simp add: onProgress_def applyUpdater_def onProgressUpdate_def)
    show "map timestamp (messages (onProgress (Some a) T status ss ! i))
            = map timestamp (messages (ss ! i))"
      unfolding upd by (induction "messages (ss ! i)") simp_all
  }
qed


theorem single_generation_updates_in_place_example:
  "(0::nat) < length [newSession ''u'' 0 2 2] \<and> sessId ([newSession ''u'' 0 2 2] ! 0) = ''2''
   \<and> (10::int) + 1 \<notin> timestamp ` set (messages ([newSession ''u'' 0 2 2] ! 0))
   \<and> map parts
        (filter (\<lambda>m. timestamp m = 10 + 1)
           (messages (handleSendMessageChat (Some ''2'') [TextPart ''hey''] [textDisplayPart ''hey'']
                        10 10
                        [\<lparr>chunkText = Some ''Hi'', functionCalls = None, chunkGrounding = None\<rparr>,
                         \<lparr>chunkText = Some ''Hi there'', functionCalls = None, chunkGrounding = None\<rparr>,
                         \<lparr>chunkText = Some ''Hi there!'', functionCalls = None, chunkGrounding = None\<rparr>]
                        None [newSession ''u'' 0 2 2] ! 0)))
       = [ [TextPart ''Hi there!''] ]
   \<and> length (messages (snd (chatStream (Some ''2'') 10
                [\<lparr>chunkText = Some ''Hi'', functionCalls = None, chunkGrounding = None\<rparr>,
                 \<lparr>chunkText = Some ''Hi there'', functionCalls = None, chunkGrounding = None\<rparr>,
                 \<lparr>chunkText = Some ''Hi there!'', functionCalls = None, chunkGrounding = None\<rparr>]
                (chatBegin (Some ''2'') [TextPart ''hey''] [textDisplayPart ''hey''] 10 10
                   [newSession ''u'' 0 2 2])) ! 0)) = 3"
proof -
  let ?ss = "[newSession ''u'' 0 2 2]"
  let ?c1 = "\<lparr>chunkText = Some ''Hi'', functionCalls = None, chunkGrounding = None\<rparr>"
  let ?c2 = "\<lparr>chunkText = Some ''Hi there'', functionCalls = None, chunkGrounding = None\<rparr>"
  let ?c3 = "\<lparr>chunkText = Some ''Hi there!'', functionCalls = None, chunkGrounding = None\<rparr>"
  have h1: "(0::nat) < length ?ss" by simp
  have h2: "sessId (?ss ! 0) = ''2''"
    by (simp add: newSession_def toString_def natToString.simps digitChar_def)
  have h3: "''2'' \<noteq> []" by simp
  have h4: "(10::int) + 1 \<notin> timestamp ` set (messages (?ss ! 0))"
    by (simp add: newSession_def WELCOME_MESSAGE_def)
  have h5: "(10::int) + 1 \<noteq> 10" by simp
  note inst = single_generation_updates_in_place
                [OF h1 h2 h3 h4 h5, of "[TextPart ''hey'']" "[textDisplayPart ''hey'']"]
  from inst have "\<exists>resp. filter (\<lambda>m. timestamp m = 10 + 1)
        (messages (handleSendMessageChat (Some ''2'') [TextPart ''hey''] [textDisplayPart ''hey'']
                     10 10 [?c1, ?c2, ?c3] None ?ss ! 0)) = [resp]
      \<and> parts resp = [TextPart ''Hi there!'']
      \<and> displayParts resp = [textDisplayPart ''Hi there!'']"
    by (elim conjE allE [of _ ?c1] allE [of _ ?c2] allE [of _ ?c3]) simp
  then have one: "map parts (filter (\<lambda>m. timestamp m = 10 + 1)
        (messages (handleSendMessageChat (Some ''2'') [TextPart ''hey''] [textDisplayPart ''hey'']
                     10 10 [?c1, ?c2, ?c3] None ?ss ! 0))) = [ [TextPart ''Hi there!''] ]"
    by auto
  from inst have "length (messages (snd (chatStream (Some ''2'') 10 [?c1, ?c2, ?c3]
        (chatBegin (Some ''2'') [TextPart ''hey''] [textDisplayPart ''hey''] 10 10 ?ss)) ! 0))
      = length (messages (?ss ! 0)) + 2"
    by blast
  then have len: "length (messages (snd (chatStream (Some ''2'') 10 [?c1, ?c2, ?c3]
        (chatBegin (Some ''2'') [TextPart ''hey''] [textDisplayPart ''hey''] 10 10 ?ss)) ! 0)) = 3"
    by (simp add: newSession_def)
  from h1 h2 h4 one len show ?thesis
    by blast
qed

text \<open>
  C6 fails on the code when two generations are in flight on one session. Generation A has
  appended its user message (timestamp 10) and its placeholder (timestamp 11); generation B,
  sent before A's first chunk, has appended its own user message (20) and placeholder (21).
  The first chunk of A, \<open>Hi\<close>, is then written over the last message, the placeholder of B:
  the placeholder of A keeps its empty text, two messages carry timestamp 11, and none
  carries 21. The stream loop does not look at the timestamp; \<open>onProgress\<close> of the video
  branch does.
\<close>

theorem chat_chunk_overwrites_last_message:
  "map timestamp
     (messages
        (chatBegin (Some ''2'') [TextPart ''b''] [textDisplayPart ''b''] 20 20
           (chatBegin (Some ''2'') [TextPart ''a''] [textDisplayPart ''a''] 10 10
              [newSession ''u'' 0 2 2]) ! 0))
     = [0, 10, 11, 20, 21]
   \<and> map timestamp
     (messages
        (snd (chatChunk (Some ''2'')
                (initialStreamVars 10,
                 chatBegin (Some ''2'') [TextPart ''b''] [textDisplayPart ''b''] 20 20
                   (chatBegin (Some ''2'') [TextPart ''a''] [textDisplayPart ''a''] 10 10
                      [newSession ''u'' 0 2 2]))
                \<lparr>chunkText = Some ''Hi'', functionCalls = None, chunkGrounding = None\<rparr>) ! 0))
     = [0, 10, 11, 20, 11]
   \<and> map parts
     (messages
        (snd (chatChunk (Some ''2'')
                (initialStreamVars 10,
                 chatBegin (Some ''2'') [TextPart ''b''] [textDisplayPart ''b''] 20 20
                   (chatBegin (Some ''2'') [TextPart ''a''] [textDisplayPart ''a''] 10 10
                      [newSession ''u'' 0 2 2]))
                \<lparr>chunkText = Some ''Hi'', functionCalls = None, chunkGrounding = None\<rparr>) ! 0))
     = [ [TextPart WELCOME_TEXT], [TextPart ''a''], [TextPart []], [TextPart ''b''],
        [TextPart ''Hi'']]"
  by (simp add: chatChunk_def chunkVars_def chatBegin_def setActiveChatHistory_def
        updateSessionMessages_def updateOneSession_def applyUpdater_def replaceLast_def
        initialStreamVars_def placeholderResponse_def userMessageOf_def newSession_def
        WELCOME_MESSAGE_def toString_def natToString.simps digitChar_def Let_def)

end
